theory Spec2Isabelle
  imports Main "HOL-Library.Word"
begin

unbundle bit_operations_syntax

section \<open>Common types\<close>

text \<open>
  A Go \<^verbatim>\<open>[]byte\<close> is a list of 8-bit words.  Where the source tells a nil slice from
  an empty one (\<^verbatim>\<open>mac == nil\<close>), the slice is a \<open>byte list option\<close> and \<open>None\<close> is nil;
  \<open>len\<close> is Go's \<^verbatim>\<open>len\<close>, which is 0 on nil.
\<close>

type_synonym byte = "8 word"

type_synonym HardwareAddr = "byte list option"

fun len :: "'a list option \<Rightarrow> nat" where
  "len None = 0"
| "len (Some xs) = length xs"

text \<open>
  The errors of the three packages.  \<open>ErrInvalidMAC\<close> is
  \<^verbatim>\<open>errors.New("invalid MAC address")\<close>, \<open>ErrInvalidDeviceID\<close> is
  \<^verbatim>\<open>fmt.Errorf("invalid device ID: %v", id)\<close>, and \<open>ErrExternal\<close> is an error
  handed back by a collaborator (the backing store, a device, the next processor, a
  decoder that is not part of these sources).
\<close>

datatype error =
    ErrInvalidPacketLength
  | ErrUnsupportedMessage
  | ErrUnsupportedMarshaling
  | ErrInvalidMAC
  | ErrInvalidDeviceID string
  | ErrExternal nat

section \<open>Package openflow: the action model\<close>

text \<open>
  \<^verbatim>\<open>type BaseAction struct { output map[uint]interface{}; srcMAC, dstMAC *net.HardwareAddr }\<close>.
  The map is only ever written with the value nil, so it is the set of its keys.  A
  nil pointer is \<open>None\<close>.  The field \<^verbatim>\<open>output\<close> is \<open>output_map\<close> here.
\<close>

record BaseAction =
  output_map :: "nat set"
  srcMAC :: "HardwareAddr option"
  dstMAC :: "HardwareAddr option"

definition NewBaseAction :: BaseAction where
  "NewBaseAction = \<lparr>output_map = {}, srcMAC = None, dstMAC = None\<rparr>"

text \<open>
  Modelled from the spec: the declaration of \<^verbatim>\<open>ZeroMAC\<close> is not in the sources; the spec
  says the getters return "the zero address when not present".
\<close>

definition ZeroMAC :: HardwareAddr where
  "ZeroMAC = Some [0, 0, 0, 0, 0, 0]"

text \<open>
  Every method takes the receiver and returns it updated, with the method's results.
  A returned \<^verbatim>\<open>error\<close> is an \<open>error option\<close>; \<open>None\<close> is Go's nil error.
\<close>

definition SetOutput :: "BaseAction \<Rightarrow> nat \<Rightarrow> BaseAction \<times> error option" where
  "SetOutput r port = (r\<lparr>output_map := insert port (output_map r)\<rparr>, None)"

definition SetSrcMAC :: "BaseAction \<Rightarrow> HardwareAddr \<Rightarrow> BaseAction \<times> error option" where
  "SetSrcMAC r mac =
     (if mac = None \<or> len mac < 6 then (r, Some ErrInvalidMAC)
      else (r\<lparr>srcMAC := Some mac\<rparr>, None))"

definition SrcMAC :: "BaseAction \<Rightarrow> bool \<times> HardwareAddr" where
  "SrcMAC r = (case srcMAC r of None \<Rightarrow> (False, ZeroMAC) | Some mac \<Rightarrow> (True, mac))"

definition SetDstMAC :: "BaseAction \<Rightarrow> HardwareAddr \<Rightarrow> BaseAction \<times> error option" where
  "SetDstMAC r mac =
     (if mac = None \<or> len mac < 6 then (r, Some ErrInvalidMAC)
      else (r\<lparr>dstMAC := Some mac\<rparr>, None))"

definition DstMAC :: "BaseAction \<Rightarrow> bool \<times> HardwareAddr" where
  "DstMAC r = (case dstMAC r of None \<Rightarrow> (False, ZeroMAC) | Some mac \<Rightarrow> (True, mac))"

section \<open>Byte buffers\<close>

text \<open>
  Go panics on a slice expression or an index out of range.  The buffer's capacity is
  taken to be its length (a buffer allocated at its size), so \<^verbatim>\<open>data[lo:hi]\<close> is in
  range exactly when \<open>lo \<le> hi \<le> length data\<close>.  Each read returns \<open>None\<close> where Go
  panics.
\<close>

definition sub_slice :: "'a list \<Rightarrow> nat \<Rightarrow> nat \<Rightarrow> 'a list option" where
  "sub_slice data lo hi =
     (if lo \<le> hi \<and> hi \<le> length data then Some (take (hi - lo) (drop lo data)) else None)"

definition slice_from :: "'a list \<Rightarrow> nat \<Rightarrow> 'a list option" where
  "slice_from data lo = (if lo \<le> length data then Some (drop lo data) else None)"

definition index_at :: "'a list \<Rightarrow> nat \<Rightarrow> 'a option" where
  "index_at data i = (if i < length data then Some (data ! i) else None)"

text \<open>
  \<^verbatim>\<open>binary.BigEndian.Uint16/32/64\<close>: the first 2, 4 or 8 bytes, most significant first;
  a shorter slice panics.
\<close>

definition big_endian :: "byte list \<Rightarrow> 'a::len word" where
  "big_endian bs = foldl (\<lambda>acc b. push_bit 8 acc OR ucast b) 0 bs"

definition Uint16 :: "byte list \<Rightarrow> 16 word option" where
  "Uint16 b = (if length b < 2 then None else Some (big_endian (take 2 b)))"

definition Uint32 :: "byte list \<Rightarrow> 32 word option" where
  "Uint32 b = (if length b < 4 then None else Some (big_endian (take 4 b)))"

definition Uint64 :: "byte list \<Rightarrow> 64 word option" where
  "Uint64 b = (if length b < 8 then None else Some (big_endian (take 8 b)))"

text \<open>
  What a decoder ends with when it yields no message: a panic of the Go runtime, or a
  returned error.
\<close>

datatype failure = Panic | Failed error

text \<open>\<open>need\<close> continues with the value of a read, and panics where the read does.\<close>

fun need :: "'a option \<Rightarrow> ('a \<Rightarrow> failure + 'b) \<Rightarrow> failure + 'b" where
  "need None k = Inl Panic"
| "need (Some x) k = k x"

section \<open>Package openflow: the message header\<close>

record Header =
  Version :: "8 word"
  Type :: "8 word"
  Length :: "16 word"
  XID :: "32 word"

text \<open>
  Modelled from the spec: \<^verbatim>\<open>Header.UnmarshalBinary\<close>, \<^verbatim>\<open>Message.UnmarshalBinary\<close> and
  \<^verbatim>\<open>Message.Type\<close> are not in the sources.  The spec gives the header as 8 bytes
  {version:1, type:1, length:2 big-endian, xid:4} with the invariant "length \<ge> header
  size and \<le> the byte buffer presented; a shorter buffer is a hard decode failure",
  and InvalidPacketLength as the error of a "buffer shorter than the header's declared
  or minimum length".  ParseMessage's first step decodes "the common header only", so
  the message decode is the header decode and \<^verbatim>\<open>msg.Type()\<close> is the header's type.
\<close>

definition declared_length :: "byte list \<Rightarrow> 16 word" where
  "declared_length data = big_endian (take 2 (drop 2 data))"

definition Header_UnmarshalBinary :: "byte list \<Rightarrow> error + Header" where
  "Header_UnmarshalBinary data =
     (if length data < 8 then Inl ErrInvalidPacketLength
      else let l = declared_length data in
        if l < 8 \<or> length data < unat l then Inl ErrInvalidPacketLength
        else Inr \<lparr>Version = data ! 0, Type = data ! 1, Length = l,
                  XID = big_endian (take 4 (drop 4 data))\<rparr>)"

definition Message_UnmarshalBinary :: "byte list \<Rightarrow> error + Header" where
  "Message_UnmarshalBinary data = Header_UnmarshalBinary data"

text \<open>
  Modelled from the spec: the declarations of the message-type and statistics-type
  constants are not in the sources.  The spec fixes type=features-reply as 0x06 and
  says the numbering is the protocol's; the values are those of OpenFlow 1.0.
\<close>

definition OFPT_FEATURES_REPLY :: "8 word" where "OFPT_FEATURES_REPLY = 6"
definition OFPT_GET_CONFIG_REPLY :: "8 word" where "OFPT_GET_CONFIG_REPLY = 8"
definition OFPT_FLOW_REMOVED :: "8 word" where "OFPT_FLOW_REMOVED = 11"
definition OFPT_PORT_STATUS :: "8 word" where "OFPT_PORT_STATUS = 12"
definition OFPT_STATS_REPLY :: "8 word" where "OFPT_STATS_REPLY = 17"
definition OFPST_DESC :: "16 word" where "OFPST_DESC = 0"

section \<open>Package of10: the switch-features reply\<close>

record Capability =
  OFPC_FLOW_STATS :: bool
  OFPC_TABLE_STATS :: bool
  OFPC_PORT_STATS :: bool
  OFPC_STP :: bool
  OFPC_RESERVED :: bool
  OFPC_IP_REASM :: bool
  OFPC_QUEUE_STATS :: bool
  OFPC_ARP_MATCH_IP :: bool

record Action =
  OFPAT_OUTPUT :: bool
  OFPAT_SET_VLAN_VID :: bool
  OFPAT_SET_VLAN_PCP :: bool
  OFPAT_STRIP_VLAN :: bool
  OFPAT_SET_DL_SRC :: bool
  OFPAT_SET_DL_DST :: bool
  OFPAT_SET_NW_SRC :: bool
  OFPAT_SET_NW_DST :: bool
  OFPAT_SET_NW_TOS :: bool
  OFPAT_SET_TP_SRC :: bool
  OFPAT_SET_TP_DST :: bool
  OFPAT_ENQUEUE :: bool

text \<open>
  \<^verbatim>\<open>Ports []*Port\<close>: the type \<^verbatim>\<open>Port\<close> is not in the sources, so a decoded port is a
  value of the type parameter \<open>'p\<close>.
\<close>

record 'p FeaturesReply =
  header :: Header
  DPID :: "64 word"
  NumBuffers :: "32 word"
  NumTables :: "8 word"
  Capabilities :: Capability
  Actions :: Action
  Ports :: "'p list"

text \<open>
  Modelled from the spec: the declarations of the capability masks and of the action
  bit positions are not in the sources (in Go they carry the names of the struct
  fields above).  The spec says they "follow the protocol's fixed numeric assignment";
  the values are those of OpenFlow 1.0.
\<close>

definition OFPC_FLOW_STATS_mask :: "32 word" where "OFPC_FLOW_STATS_mask = 1"
definition OFPC_TABLE_STATS_mask :: "32 word" where "OFPC_TABLE_STATS_mask = 2"
definition OFPC_PORT_STATS_mask :: "32 word" where "OFPC_PORT_STATS_mask = 4"
definition OFPC_STP_mask :: "32 word" where "OFPC_STP_mask = 8"
definition OFPC_RESERVED_mask :: "32 word" where "OFPC_RESERVED_mask = 16"
definition OFPC_IP_REASM_mask :: "32 word" where "OFPC_IP_REASM_mask = 32"
definition OFPC_QUEUE_STATS_mask :: "32 word" where "OFPC_QUEUE_STATS_mask = 64"
definition OFPC_ARP_MATCH_IP_mask :: "32 word" where "OFPC_ARP_MATCH_IP_mask = 128"

definition OFPAT_OUTPUT_pos :: nat where "OFPAT_OUTPUT_pos = 0"
definition OFPAT_SET_VLAN_VID_pos :: nat where "OFPAT_SET_VLAN_VID_pos = 1"
definition OFPAT_SET_VLAN_PCP_pos :: nat where "OFPAT_SET_VLAN_PCP_pos = 2"
definition OFPAT_STRIP_VLAN_pos :: nat where "OFPAT_STRIP_VLAN_pos = 3"
definition OFPAT_SET_DL_SRC_pos :: nat where "OFPAT_SET_DL_SRC_pos = 4"
definition OFPAT_SET_DL_DST_pos :: nat where "OFPAT_SET_DL_DST_pos = 5"
definition OFPAT_SET_NW_SRC_pos :: nat where "OFPAT_SET_NW_SRC_pos = 6"
definition OFPAT_SET_NW_DST_pos :: nat where "OFPAT_SET_NW_DST_pos = 7"
definition OFPAT_SET_NW_TOS_pos :: nat where "OFPAT_SET_NW_TOS_pos = 8"
definition OFPAT_SET_TP_SRC_pos :: nat where "OFPAT_SET_TP_SRC_pos = 9"
definition OFPAT_SET_TP_DST_pos :: nat where "OFPAT_SET_TP_DST_pos = 10"
definition OFPAT_ENQUEUE_pos :: nat where "OFPAT_ENQUEUE_pos = 11"

definition getSupportedAction :: "32 word \<Rightarrow> Action" where
  "getSupportedAction actions = \<lparr>
     OFPAT_OUTPUT = (actions AND push_bit OFPAT_OUTPUT_pos 1 \<noteq> 0),
     OFPAT_SET_VLAN_VID = (actions AND push_bit OFPAT_SET_VLAN_VID_pos 1 \<noteq> 0),
     OFPAT_SET_VLAN_PCP = (actions AND push_bit OFPAT_SET_VLAN_PCP_pos 1 \<noteq> 0),
     OFPAT_STRIP_VLAN = (actions AND push_bit OFPAT_STRIP_VLAN_pos 1 \<noteq> 0),
     OFPAT_SET_DL_SRC = (actions AND push_bit OFPAT_SET_DL_SRC_pos 1 \<noteq> 0),
     OFPAT_SET_DL_DST = (actions AND push_bit OFPAT_SET_DL_DST_pos 1 \<noteq> 0),
     OFPAT_SET_NW_SRC = (actions AND push_bit OFPAT_SET_NW_SRC_pos 1 \<noteq> 0),
     OFPAT_SET_NW_DST = (actions AND push_bit OFPAT_SET_NW_DST_pos 1 \<noteq> 0),
     OFPAT_SET_NW_TOS = (actions AND push_bit OFPAT_SET_NW_TOS_pos 1 \<noteq> 0),
     OFPAT_SET_TP_SRC = (actions AND push_bit OFPAT_SET_TP_SRC_pos 1 \<noteq> 0),
     OFPAT_SET_TP_DST = (actions AND push_bit OFPAT_SET_TP_DST_pos 1 \<noteq> 0),
     OFPAT_ENQUEUE = (actions AND push_bit OFPAT_ENQUEUE_pos 1 \<noteq> 0)\<rparr>"

definition getCapability :: "32 word \<Rightarrow> Capability" where
  "getCapability capabilities = \<lparr>
     OFPC_FLOW_STATS = (capabilities AND OFPC_FLOW_STATS_mask \<noteq> 0),
     OFPC_TABLE_STATS = (capabilities AND OFPC_TABLE_STATS_mask \<noteq> 0),
     OFPC_PORT_STATS = (capabilities AND OFPC_PORT_STATS_mask \<noteq> 0),
     OFPC_STP = (capabilities AND OFPC_STP_mask \<noteq> 0),
     OFPC_RESERVED = (capabilities AND OFPC_RESERVED_mask \<noteq> 0),
     OFPC_IP_REASM = (capabilities AND OFPC_IP_REASM_mask \<noteq> 0),
     OFPC_QUEUE_STATS = (capabilities AND OFPC_QUEUE_STATS_mask \<noteq> 0),
     OFPC_ARP_MATCH_IP = (capabilities AND OFPC_ARP_MATCH_IP_mask \<noteq> 0)\<rparr>"

text \<open>\<^verbatim>\<open>new(FeaturesReply)\<close>: every field at its zero value, the port slice nil.\<close>

definition new_FeaturesReply :: "'p FeaturesReply" where
  "new_FeaturesReply = \<lparr>
     header = \<lparr>Version = 0, Type = 0, Length = 0, XID = 0\<rparr>,
     DPID = 0, NumBuffers = 0, NumTables = 0,
     Capabilities = getCapability 0, Actions = getSupportedAction 0, Ports = []\<rparr>"

text \<open>
  The loop over the port records of \<^verbatim>\<open>FeaturesReply.UnmarshalBinary\<close>.  \<open>i\<close> and
  \<open>nPorts\<close> are \<^verbatim>\<open>uint16\<close>, and so is the offset \<^verbatim>\<open>32+i*48\<close>, which wraps around at
  \<open>2 ^ 16\<close> as Go's does.  \<open>Port_UnmarshalBinary\<close> is \<^verbatim>\<open>Port.UnmarshalBinary\<close> on a new
  \<^verbatim>\<open>Port\<close>: it is not in the sources and is a parameter, an error or the decoded port.
  \<open>acc\<close> holds \<^verbatim>\<open>r.Ports[0..i-1]\<close>.
\<close>

function ports_loop ::
  "(byte list \<Rightarrow> error + 'p) \<Rightarrow> byte list \<Rightarrow> 16 word \<Rightarrow> 16 word \<Rightarrow> 'p list
     \<Rightarrow> failure + 'p list" where
  "ports_loop Port_UnmarshalBinary data nPorts i acc =
     (if i < nPorts then
        need (slice_from data (unat (32 + i * 48))) (\<lambda>buf.
        need (sub_slice buf 0 48) (\<lambda>window.
          case Port_UnmarshalBinary window of
            Inl err \<Rightarrow> Inl (Failed err)
          | Inr port \<Rightarrow> ports_loop Port_UnmarshalBinary data nPorts (i + 1) (acc @ [port])))
      else Inr acc)"
  by pat_completeness auto
termination
proof (relation "measure (\<lambda>(dec, data, nPorts, i, acc). unat nPorts - unat i)")
  show "wf (measure (\<lambda>(dec :: byte list \<Rightarrow> error + 'p, data :: byte list,
          nPorts :: 16 word, i :: 16 word, acc :: 'p list). unat nPorts - unat i))"
    by simp
next
  fix Port_UnmarshalBinary :: "byte list \<Rightarrow> error + 'p"
  fix data :: "byte list" and nPorts i :: "16 word" and acc :: "'p list"
  fix buf window :: "byte list" and port :: 'p
  assume "i < nPorts"
  then have "unat i < unat nPorts"
    by (simp add: word_less_nat_alt)
  moreover have "unat nPorts < 2 ^ 16"
    using unsigned_less [of nPorts] by simp
  ultimately have "unat i + unat (1 :: 16 word) < 2 ^ LENGTH(16)"
    by simp
  then have "unat (i + 1) = unat i + unat (1 :: 16 word)"
    by (simp only: unat_add_lem)
  with \<open>unat i < unat nPorts\<close> show "((Port_UnmarshalBinary, data, nPorts, i + 1, acc @ [port]),
      (Port_UnmarshalBinary, data, nPorts, i, acc))
    \<in> measure (\<lambda>(dec, data, nPorts, i, acc). unat nPorts - unat i)"
    by simp
qed

declare ports_loop.simps [simp del]

text \<open>
  \<^verbatim>\<open>FeaturesReply.UnmarshalBinary\<close>, with the receiver \<open>r\<close> as an argument.  On
  success it returns the receiver as the method leaves it; when \<^verbatim>\<open>nPorts == 0\<close> the
  method returns before it touches \<^verbatim>\<open>r.Ports\<close>.  On a failure the receiver is dropped,
  as ParseMessage drops it.
\<close>

definition FeaturesReply_UnmarshalBinary ::
  "(byte list \<Rightarrow> error + 'p) \<Rightarrow> 'p FeaturesReply \<Rightarrow> byte list
     \<Rightarrow> failure + 'p FeaturesReply" where
  "FeaturesReply_UnmarshalBinary Port_UnmarshalBinary r data =
     (case Header_UnmarshalBinary data of
        Inl err \<Rightarrow> Inl (Failed err)
      | Inr h \<Rightarrow>
          if Length h < 32 \<or> length data < unat (Length h)
          then Inl (Failed ErrInvalidPacketLength)
          else
            need (Option.bind (sub_slice data 8 16) Uint64) (\<lambda>dpid.
            need (Option.bind (sub_slice data 16 20) Uint32) (\<lambda>numBuffers.
            need (index_at data 20) (\<lambda>numTables.
            need (Option.bind (sub_slice data 24 28) Uint32) (\<lambda>capabilities.
            need (Option.bind (sub_slice data 28 32) Uint32) (\<lambda>actions.
              let r1 = r\<lparr>header := h, DPID := dpid, NumBuffers := numBuffers,
                         NumTables := numTables,
                         Capabilities := getCapability capabilities,
                         Actions := getSupportedAction actions\<rparr>;
                  nPorts = (Length h - 32) div 48
              in if nPorts = 0 then Inr r1
                 else case ports_loop Port_UnmarshalBinary data nPorts 0 [] of
                        Inl f \<Rightarrow> Inl f
                      | Inr ports \<Rightarrow> Inr (r1\<lparr>Ports := ports\<rparr>)))))))"

text \<open>
  To state what the decode yields: the \<open>i\<close>-th 48-byte window of the buffer after
  offset 32, and the decoding of a list of windows in order, which stops at the first
  error.
\<close>

definition port_window :: "byte list \<Rightarrow> nat \<Rightarrow> byte list" where
  "port_window data i = take 48 (drop (32 + 48 * i) data)"

fun decode_all :: "('a \<Rightarrow> error + 'p) \<Rightarrow> 'a list \<Rightarrow> error + 'p list" where
  "decode_all dec [] = Inr []"
| "decode_all dec (w # ws) =
     (case dec w of
        Inl err \<Rightarrow> Inl err
      | Inr p \<Rightarrow> (case decode_all dec ws of Inl err \<Rightarrow> Inl err | Inr ps \<Rightarrow> Inr (p # ps)))"

section \<open>Package of10: ParseMessage\<close>

text \<open>
  The message types other than FeaturesReply are declared outside the sources.  Their
  \<^verbatim>\<open>UnmarshalBinary\<close> methods are the parameter \<open>Other_UnmarshalBinary\<close>, by kind of
  message: an error, or a decoded message of the type parameter \<open>'m\<close>.
\<close>

datatype msgkind = GetConfigReply | DescriptionReply | PortStatus | FlowRemoved

datatype selected = NewFeaturesReply | NewOther msgkind

datatype ('p, 'm) Incoming = IncomingFeaturesReply "'p FeaturesReply" | IncomingOther msgkind 'm

text \<open>The \<^verbatim>\<open>switch msg.Type()\<close>: the new value \<^verbatim>\<open>v\<close>, or the early return.\<close>

definition select_message :: "8 word \<Rightarrow> byte list \<Rightarrow> failure + selected" where
  "select_message ty data =
     (if ty = OFPT_FEATURES_REPLY then Inr NewFeaturesReply
      else if ty = OFPT_GET_CONFIG_REPLY then Inr (NewOther GetConfigReply)
      else if ty = OFPT_STATS_REPLY then
        need (Option.bind (sub_slice data 8 10) Uint16) (\<lambda>statsType.
          if statsType = OFPST_DESC then Inr (NewOther DescriptionReply)
          else Inl (Failed ErrUnsupportedMessage))
      else if ty = OFPT_PORT_STATUS then Inr (NewOther PortStatus)
      else if ty = OFPT_FLOW_REMOVED then Inr (NewOther FlowRemoved)
      else Inl (Failed ErrUnsupportedMessage))"

definition ParseMessage ::
  "(byte list \<Rightarrow> error + 'p) \<Rightarrow> (msgkind \<Rightarrow> byte list \<Rightarrow> error + 'm) \<Rightarrow> byte list
     \<Rightarrow> failure + ('p, 'm) Incoming" where
  "ParseMessage Port_UnmarshalBinary Other_UnmarshalBinary data =
     (case Message_UnmarshalBinary data of
        Inl err \<Rightarrow> Inl (Failed err)
      | Inr msg \<Rightarrow>
          (case select_message (Type msg) data of
             Inl f \<Rightarrow> Inl f
           | Inr NewFeaturesReply \<Rightarrow>
               (case FeaturesReply_UnmarshalBinary Port_UnmarshalBinary new_FeaturesReply data of
                  Inl f \<Rightarrow> Inl f
                | Inr v \<Rightarrow> Inr (IncomingFeaturesReply v))
           | Inr (NewOther kind) \<Rightarrow>
               (case Other_UnmarshalBinary kind data of
                  Inl err \<Rightarrow> Inl (Failed err)
                | Inr v \<Rightarrow> Inr (IncomingOther kind v))))"

section \<open>Package discovery\<close>

text \<open>
  \<^verbatim>\<open>strconv.ParseUint(s, 10, 64)\<close> of Go's library, as far as the source uses it: the
  value, or \<open>None\<close> where it returns an error (an empty string, a byte that is not a
  decimal digit, a value above \<open>2 ^ 64 - 1\<close>).  \<open>cutoff\<close> is the library's
  \<^verbatim>\<open>maxUint64/10 + 1\<close>.
\<close>

definition digit_of :: "char \<Rightarrow> nat option" where
  "digit_of c =
     (let n = of_char c :: nat in if 48 \<le> n \<and> n \<le> 57 then Some (n - 48) else None)"

definition cutoff :: nat where
  "cutoff = (2 ^ 64 - 1) div 10 + 1"

fun parse_digits :: "nat \<Rightarrow> string \<Rightarrow> nat option" where
  "parse_digits n [] = Some n"
| "parse_digits n (c # cs) =
     (case digit_of c of
        None \<Rightarrow> None
      | Some d \<Rightarrow>
          if cutoff \<le> n then None
          else if 2 ^ 64 - 1 < n * 10 + d then None
          else parse_digits (n * 10 + d) cs)"

definition ParseUint_10_64 :: "string \<Rightarrow> 64 word option" where
  "ParseUint_10_64 s = (if s = [] then None else map_option of_nat (parse_digits 0 s))"

text \<open>
  To state what ParseUint returns: a decimal numeral is a non-empty string of the digits
  0 to 9, and its value is the number it writes.
\<close>

definition is_decimal :: "string \<Rightarrow> bool" where
  "is_decimal s \<longleftrightarrow> s \<noteq> [] \<and> list_all (\<lambda>c. c \<in> set ''0123456789'') s"

definition decimal_value :: "string \<Rightarrow> nat" where
  "decimal_value s = foldl (\<lambda>n c. n * 10 + (of_char c - 48)) 0 s"

text \<open>
  The collaborators' types are declared outside the sources; the records hold what the
  source reads of them.  \<^verbatim>\<open>Port.Number()\<close> is an unsigned integer of a width the
  sources do not give; the source converts it with \<^verbatim>\<open>uint16(...)\<close>, which keeps the low
  16 bits.  A \<^verbatim>\<open>net.HardwareAddr\<close> or \<^verbatim>\<open>net.IP\<close> of a packet is a byte list
  (\<^verbatim>\<open>bytes.Equal\<close> takes nil and empty as equal).
\<close>

record Device =
  ID :: string

record Port =
  Device :: Device
  Number :: nat

record Finder =
  Devices :: "Device list"

record Ethernet =
  eth_SrcMAC :: "byte list"
  eth_DstMAC :: "byte list"
  eth_Type :: "16 word"
  eth_Payload :: "byte list"

record ARP =
  Operation :: "16 word"
  SHA :: "byte list"
  THA :: "byte list"
  TPA :: "byte list"

definition myMAC :: "byte list" where
  "myMAC = [0x06, 0xff, 0x29, 0x34, 0x82, 0x87]"

text \<open>
  The collaborators: the ARP decoder \<^verbatim>\<open>protocol.ARP.UnmarshalBinary\<close> (on a new value),
  the backing store, the devices' flow removal, and the embedded
  \<^verbatim>\<open>app.BaseProcessor\<close>, which hands an event to the next processor.  None is in the
  sources; each is a function from the call's arguments to what the call returns.
\<close>

record env =
  ARP_UnmarshalBinary :: "byte list \<Rightarrow> error + ARP"
  UpdateHostLocation :: "byte list \<Rightarrow> byte list \<Rightarrow> 64 word \<Rightarrow> 16 word \<Rightarrow> bool \<times> error option"
  ResetHostLocationsByDevice :: "64 word \<Rightarrow> error option"
  RemoveFlowByMAC :: "Device \<Rightarrow> byte list \<Rightarrow> error option"
  BaseProcessor_OnPacketIn :: "Finder \<Rightarrow> Port \<Rightarrow> Ethernet \<Rightarrow> error option"
  BaseProcessor_OnDeviceUp :: "Finder \<Rightarrow> Device \<Rightarrow> error option"
  BaseProcessor_OnDeviceDown :: "Finder \<Rightarrow> Device \<Rightarrow> error option"

text \<open>The calls a handler makes on its collaborators, in the order it makes them.\<close>

datatype call =
    Call_UpdateHostLocation "byte list" "byte list" "64 word" "16 word"
  | Call_ResetHostLocationsByDevice "64 word"
  | Call_RemoveFlowByMAC Device "byte list"
  | Call_BaseProcessor_OnPacketIn Finder Port Ethernet
  | Call_BaseProcessor_OnDeviceUp Finder Device
  | Call_BaseProcessor_OnDeviceDown Finder Device

text \<open>
  \<^verbatim>\<open>for _, device := range finder.Devices() { ... }\<close>: an error of one removal is
  logged and the loop continues.
\<close>

fun remove_flows :: "env \<Rightarrow> byte list \<Rightarrow> Device list \<Rightarrow> call list" where
  "remove_flows e mac [] = []"
| "remove_flows e mac (device # rest) =
     (case RemoveFlowByMAC e device mac of
        Some err \<Rightarrow> Call_RemoveFlowByMAC device mac # remove_flows e mac rest
      | None \<Rightarrow> Call_RemoveFlowByMAC device mac # remove_flows e mac rest)"

text \<open>\<^verbatim>\<open>processor.OnPacketIn\<close>: the returned error and the calls made.\<close>

definition OnPacketIn :: "env \<Rightarrow> Finder \<Rightarrow> Port \<Rightarrow> Ethernet \<Rightarrow> error option \<times> call list" where
  "OnPacketIn e finder ingress eth =
     (if eth_Type eth \<noteq> 0x0806
      then (BaseProcessor_OnPacketIn e finder ingress eth,
            [Call_BaseProcessor_OnPacketIn finder ingress eth])
      else case ARP_UnmarshalBinary e (eth_Payload eth) of
        Inl err \<Rightarrow> (Some err, [])
      | Inr arp \<Rightarrow>
          if Operation arp \<noteq> 2
          then (BaseProcessor_OnPacketIn e finder ingress eth,
                [Call_BaseProcessor_OnPacketIn finder ingress eth])
          else if SHA arp \<noteq> myMAC then (None, [])
          else case ParseUint_10_64 (ID (Device ingress)) of
            None \<Rightarrow> (Some (ErrInvalidDeviceID (ID (Device ingress))), [])
          | Some swDPID \<Rightarrow>
              let portNum = of_nat (Number ingress) :: 16 word;
                  update = Call_UpdateHostLocation (THA arp) (TPA arp) swDPID portNum
              in case UpdateHostLocation e (THA arp) (TPA arp) swDPID portNum of
                   (updated, Some err) \<Rightarrow> (Some err, [update])
                 | (updated, None) \<Rightarrow>
                     if updated
                     then (None, update # remove_flows e (THA arp) (Devices finder))
                     else (None, [update]))"

text \<open>
  The canceller table and the probing tasks.  \<^verbatim>\<open>addARPSender\<close> makes a context, starts
  a goroutine that probes until the context is done, and stores the context's cancel
  function under the device id.  A task is the goroutine with its context: the device
  id it probes for, and whether its context has been cancelled.  \<open>tasks\<close> lists every
  task started so far, and a cancel function is the index of the task it cancels.  A
  task is live while its context is not cancelled.  Each handler runs to its end before
  the next event; what a goroutine sends and when it wakes is outside this model.  The
  embedded \<^verbatim>\<open>BaseProcessor\<close> and the store \<^verbatim>\<open>db\<close> are in \<open>env\<close>.  \<open>cancel\<close> marks the
  task of an index as cancelled; an index of no started task, which the table never
  holds, changes nothing.
\<close>

record task =
  task_deviceID :: string
  cancelled :: bool

record processor =
  canceller :: "string \<rightharpoonup> nat"
  tasks :: "task list"

definition New :: processor where
  "New = \<lparr>canceller = Map.empty, tasks = []\<rparr>"

definition cancel :: "nat \<Rightarrow> task list \<Rightarrow> task list" where
  "cancel c ts = (if c < length ts then ts[c := (ts ! c)\<lparr>cancelled := True\<rparr>] else ts)"

definition removeARPSender :: "processor \<Rightarrow> string \<Rightarrow> processor" where
  "removeARPSender r deviceID =
     (case canceller r deviceID of
        None \<Rightarrow> r
      | Some c \<Rightarrow> r\<lparr>tasks := cancel c (tasks r), canceller := (canceller r)(deviceID := None)\<rparr>)"

definition addARPSender :: "processor \<Rightarrow> Device \<Rightarrow> processor" where
  "addARPSender r device =
     r\<lparr>tasks := tasks r @ [\<lparr>task_deviceID = ID device, cancelled = False\<rparr>],
       canceller := (canceller r)(ID device \<mapsto> length (tasks r))\<rparr>"

definition OnDeviceUp ::
  "env \<Rightarrow> processor \<Rightarrow> Finder \<Rightarrow> Device \<Rightarrow> processor \<times> error option \<times> call list" where
  "OnDeviceUp e r finder device =
     (let r1 = removeARPSender r (ID device);
          r2 = addARPSender r1 device
      in (r2, BaseProcessor_OnDeviceUp e finder device,
          [Call_BaseProcessor_OnDeviceUp finder device]))"

definition OnDeviceDown ::
  "env \<Rightarrow> processor \<Rightarrow> Finder \<Rightarrow> Device \<Rightarrow> processor \<times> error option \<times> call list" where
  "OnDeviceDown e r finder device =
     (let r1 = removeARPSender r (ID device) in
      case ParseUint_10_64 (ID device) of
        None \<Rightarrow> (r1, Some (ErrInvalidDeviceID (ID device)), [])
      | Some swDPID \<Rightarrow>
          (case ResetHostLocationsByDevice e swDPID of
             Some err \<Rightarrow> (r1, Some err, [Call_ResetHostLocationsByDevice swDPID])
           | None \<Rightarrow>
               (r1, BaseProcessor_OnDeviceDown e finder device,
                [Call_ResetHostLocationsByDevice swDPID,
                 Call_BaseProcessor_OnDeviceDown finder device])))"

text \<open>
  The device events a processor receives, one after the other, from \<^verbatim>\<open>New\<close>; and the
  live tasks of a device id, by index.
\<close>

datatype event = DeviceUp Finder Device | DeviceDown Finder Device

fun handle :: "env \<Rightarrow> processor \<Rightarrow> event \<Rightarrow> processor" where
  "handle e r (DeviceUp finder device) = fst (OnDeviceUp e r finder device)"
| "handle e r (DeviceDown finder device) = fst (OnDeviceDown e r finder device)"

definition run :: "env \<Rightarrow> event list \<Rightarrow> processor" where
  "run e events = foldl (handle e) New events"

definition live_tasks :: "processor \<Rightarrow> string \<Rightarrow> nat list" where
  "live_tasks r deviceID =
     filter (\<lambda>i. task_deviceID (tasks r ! i) = deviceID \<and> \<not> cancelled (tasks r ! i))
       [0..<length (tasks r)]"

text \<open>
  OnDeviceUp holds the mutex inside \<^verbatim>\<open>removeARPSender\<close> and again inside
  \<^verbatim>\<open>addARPSender\<close>, and holds nothing between the two calls.  A critical section is
  what a handler does while it holds the mutex; handlers that run at the same time take
  turns by critical section, each handler's sections in its own order.
  \<open>interleavings\<close> lists the ways two handlers can take turns.
\<close>

datatype critical_section = Locked_removeARPSender string | Locked_addARPSender Device

fun perform :: "processor \<Rightarrow> critical_section \<Rightarrow> processor" where
  "perform r (Locked_removeARPSender deviceID) = removeARPSender r deviceID"
| "perform r (Locked_addARPSender device) = addARPSender r device"

definition OnDeviceUp_sections :: "Device \<Rightarrow> critical_section list" where
  "OnDeviceUp_sections device = [Locked_removeARPSender (ID device), Locked_addARPSender device]"

definition schedule :: "processor \<Rightarrow> critical_section list \<Rightarrow> processor" where
  "schedule r sections = foldl perform r sections"

fun interleavings :: "'a list \<Rightarrow> 'a list \<Rightarrow> 'a list list" where
  "interleavings [] ys = [ys]"
| "interleavings xs [] = [xs]"
| "interleavings (x # xs) (y # ys) =
     map ((#) x) (interleavings xs (y # ys)) @ map ((#) y) (interleavings (x # xs) ys)"

text \<open>
  The invariant of the canceller table: every entry names a started task of that
  device id that is not cancelled, and every task that is not cancelled is the entry of
  its device id.
\<close>

definition table_inv :: "processor \<Rightarrow> bool" where
  "table_inv r \<longleftrightarrow>
     (\<forall>d c. canceller r d = Some c \<longrightarrow>
        c < length (tasks r) \<and> task_deviceID (tasks r ! c) = d \<and> \<not> cancelled (tasks r ! c))
   \<and> (\<forall>i < length (tasks r). \<not> cancelled (tasks r ! i) \<longrightarrow>
        canceller r (task_deviceID (tasks r ! i)) = Some i)"

section \<open>Example inputs\<close>

text \<open>
  Concrete collaborators and packets, for the examples that follow the theorems.  The
  example ARP decoder reads the layout of RFC 826 for Ethernet and IPv4 (operation at
  bytes 6-7, sender hardware address at 8-13, target hardware address at 18-23, target
  protocol address at 24-27) and rejects a payload shorter than 28 bytes; the
  repository's decoder is not in the sources.  The example store answers every update
  with \<open>answer\<close>, and the example device with id 2 fails every flow removal.
\<close>

definition example_ARP_UnmarshalBinary :: "byte list \<Rightarrow> error + ARP" where
  "example_ARP_UnmarshalBinary payload =
     (if length payload < 28 then Inl (ErrExternal 0)
      else Inr \<lparr>Operation = big_endian (take 2 (drop 6 payload)),
                SHA = take 6 (drop 8 payload),
                THA = take 6 (drop 18 payload),
                TPA = take 4 (drop 24 payload)\<rparr>)"

definition example_env :: "bool \<times> error option \<Rightarrow> env" where
  "example_env answer = \<lparr>
     ARP_UnmarshalBinary = example_ARP_UnmarshalBinary,
     UpdateHostLocation = (\<lambda>mac ip swDPID portNum. answer),
     ResetHostLocationsByDevice = (\<lambda>swDPID. None),
     RemoveFlowByMAC = (\<lambda>device mac. if ID device = ''2'' then Some (ErrExternal 1) else None),
     BaseProcessor_OnPacketIn = (\<lambda>finder ingress eth. None),
     BaseProcessor_OnDeviceUp = (\<lambda>finder device. None),
     BaseProcessor_OnDeviceDown = (\<lambda>finder device. None)\<rparr>"

text \<open>
  An ARP packet in an Ethernet frame: operation \<open>op\<close>, sender hardware address \<open>sha\<close>,
  target hardware address 02:00:00:00:00:09, target protocol address 10.0.0.9.
\<close>

definition example_arp_frame :: "byte \<Rightarrow> byte list \<Rightarrow> Ethernet" where
  "example_arp_frame op sha = \<lparr>
     eth_SrcMAC = [2, 0, 0, 0, 0, 9], eth_DstMAC = myMAC, eth_Type = 0x0806,
     eth_Payload = [0, 1, 8, 0, 6, 4, 0, op] @ sha @ [10, 0, 0, 1]
                   @ [2, 0, 0, 0, 0, 9] @ [10, 0, 0, 9]\<rparr>"

definition example_finder :: Finder where
  "example_finder = \<lparr>Devices = [\<lparr>ID = ''1''\<rparr>, \<lparr>ID = ''2''\<rparr>, \<lparr>ID = ''3''\<rparr>]\<rparr>"

definition example_port :: Port where
  "example_port = \<lparr>Device = \<lparr>ID = ''42''\<rparr>, Number = 7\<rparr>"

text \<open>
  For the codec: an example port decoder that rejects a window shorter than 48 bytes
  and yields the port number of the first two bytes (the repository's decoder is not in
  the sources), a decoder of the other message kinds that keeps the bytes, and a
  features reply of 128 bytes with two port records, numbered 1 and 2.
\<close>

definition example_Port_UnmarshalBinary :: "byte list \<Rightarrow> error + 16 word" where
  "example_Port_UnmarshalBinary window =
     (if length window < 48 then Inl ErrInvalidPacketLength
      else Inr (big_endian (take 2 window)))"

definition example_Other_UnmarshalBinary :: "msgkind \<Rightarrow> byte list \<Rightarrow> error + byte list" where
  "example_Other_UnmarshalBinary kind data = Inr data"

definition example_features_reply :: "byte list" where
  "example_features_reply =
    [1, 6, 0, 128, 0, 0, 0, 1, 0, 0, 0, 0, 0, 0, 0, 42,
     0, 0, 1, 0, 2, 0, 0, 0, 0, 0, 0, 1, 0, 0, 0, 1,
     0, 1, 2, 0, 0, 0, 0, 1, 0, 0, 0, 0, 0, 0, 0, 0,
     0, 0, 0, 0, 0, 0, 0, 0, 0, 0, 0, 0, 0, 0, 0, 0,
     0, 0, 0, 0, 0, 0, 0, 0, 0, 0, 0, 0, 0, 0, 0, 0,
     0, 2, 2, 0, 0, 0, 0, 2, 0, 0, 0, 0, 0, 0, 0, 0,
     0, 0, 0, 0, 0, 0, 0, 0, 0, 0, 0, 0, 0, 0, 0, 0,
     0, 0, 0, 0, 0, 0, 0, 0, 0, 0, 0, 0, 0, 0, 0, 0]"

lemmas example_defs =
  example_ARP_UnmarshalBinary_def example_env_def example_arp_frame_def
  example_finder_def example_port_def myMAC_def big_endian_def
  ParseUint_10_64_def digit_of_def cutoff_def

section \<open>Properties of the action model\<close>

text \<open>
  C7: for a nil input or an input shorter than 6 bytes, SetSrcMAC and SetDstMAC fail
  with the invalid-address error and return the receiver as it was, so both getters
  report what they reported before: on a new action present=false, and after an
  earlier successful set the address stored then.
\<close>

theorem C7_failed_set_keeps_field:
  assumes "mac = None \<or> len mac < 6"
  shows "SetSrcMAC r mac = (r, Some ErrInvalidMAC)
       \<and> SetDstMAC r mac = (r, Some ErrInvalidMAC)
       \<and> SrcMAC (fst (SetSrcMAC r mac)) = SrcMAC r
       \<and> DstMAC (fst (SetDstMAC r mac)) = DstMAC r
       \<and> fst (SrcMAC (fst (SetSrcMAC NewBaseAction mac))) = False
       \<and> fst (DstMAC (fst (SetDstMAC NewBaseAction mac))) = False
       \<and> (6 \<le> len old \<longrightarrow>
            SrcMAC (fst (SetSrcMAC (fst (SetSrcMAC r old)) mac)) = (True, old)
          \<and> DstMAC (fst (SetDstMAC (fst (SetDstMAC r old)) mac)) = (True, old))"
proof -
  have fail_src: "SetSrcMAC r' mac = (r', Some ErrInvalidMAC)" for r'
    using assms by (simp add: SetSrcMAC_def)
  have fail_dst: "SetDstMAC r' mac = (r', Some ErrInvalidMAC)" for r'
    using assms by (simp add: SetDstMAC_def)
  have fresh_src: "fst (SrcMAC NewBaseAction) = False"
    by (simp add: SrcMAC_def NewBaseAction_def)
  have fresh_dst: "fst (DstMAC NewBaseAction) = False"
    by (simp add: DstMAC_def NewBaseAction_def)
  have kept: "SrcMAC (fst (SetSrcMAC r old)) = (True, old)
            \<and> DstMAC (fst (SetDstMAC r old)) = (True, old)" if "6 \<le> len old"
    using that by (cases old) (simp_all add: SetSrcMAC_def SrcMAC_def SetDstMAC_def DstMAC_def)
  show ?thesis
    using kept by (simp add: fail_src fail_dst fresh_src fresh_dst)
qed

theorem C7_failed_set_keeps_field_witness:
  "len (Some [7, 8, 9 :: byte]) < 6
   \<and> 6 \<le> len (Some [1, 2, 3, 4, 5, 6 :: byte])
   \<and> SetSrcMAC NewBaseAction (Some [7, 8, 9]) = (NewBaseAction, Some ErrInvalidMAC)
   \<and> SetDstMAC NewBaseAction (Some [7, 8, 9]) = (NewBaseAction, Some ErrInvalidMAC)
   \<and> SrcMAC (fst (SetSrcMAC (fst (SetSrcMAC NewBaseAction (Some [1, 2, 3, 4, 5, 6])))
        (Some [7, 8, 9]))) = (True, Some [1, 2, 3, 4, 5, 6])
   \<and> DstMAC (fst (SetDstMAC (fst (SetDstMAC NewBaseAction (Some [1, 2, 3, 4, 5, 6])))
        (Some [7, 8, 9]))) = (True, Some [1, 2, 3, 4, 5, 6])"
proof -
  have short: "Some [7, 8, 9 :: byte] = None \<or> len (Some [7, 8, 9 :: byte]) < 6"
    by simp
  have long: "6 \<le> len (Some [1, 2, 3, 4, 5, 6 :: byte])"
    by simp
  from C7_failed_set_keeps_field [OF short, of NewBaseAction "Some [1, 2, 3, 4, 5, 6]"] long
  show ?thesis by simp
qed

text \<open>
  C8 (as stated, refuted): an address of 7 bytes is not of exactly 6 bytes, and both
  setters accept it and store it whole.
\<close>

theorem C8_counterexample:
  "len (Some [1, 2, 3, 4, 5, 6, 7 :: byte]) \<noteq> 6
   \<and> snd (SetSrcMAC NewBaseAction (Some [1, 2, 3, 4, 5, 6, 7])) = None
   \<and> snd (SetDstMAC NewBaseAction (Some [1, 2, 3, 4, 5, 6, 7])) = None
   \<and> SrcMAC (fst (SetSrcMAC NewBaseAction (Some [1, 2, 3, 4, 5, 6, 7])))
       = (True, Some [1, 2, 3, 4, 5, 6, 7])"
  by (simp add: SetSrcMAC_def SetDstMAC_def SrcMAC_def)

text \<open>
  C8 (amended): SetSrcMAC and SetDstMAC reject exactly the nil input and the inputs
  shorter than 6 bytes, with the invalid-address error; every input of 6 bytes or more,
  the longer ones included, is accepted and stored whole.
\<close>

theorem C8_rejects_exactly_short:
  "(snd (SetSrcMAC r mac) = Some ErrInvalidMAC) = (mac = None \<or> len mac < 6)
   \<and> (snd (SetSrcMAC r mac) = None) = (mac \<noteq> None \<and> 6 \<le> len mac)
   \<and> (snd (SetDstMAC r mac) = Some ErrInvalidMAC) = (mac = None \<or> len mac < 6)
   \<and> (snd (SetDstMAC r mac) = None) = (mac \<noteq> None \<and> 6 \<le> len mac)
   \<and> (6 \<le> len mac \<longrightarrow>
         SrcMAC (fst (SetSrcMAC r mac)) = (True, mac)
       \<and> DstMAC (fst (SetDstMAC r mac)) = (True, mac))"
  by (cases mac) (auto simp: SetSrcMAC_def SetDstMAC_def SrcMAC_def DstMAC_def)

theorem C8_rejects_exactly_short_witness:
  "6 \<le> len (Some [1, 2, 3, 4, 5, 6, 7 :: byte])
   \<and> snd (SetSrcMAC NewBaseAction (Some [1, 2, 3, 4, 5, 6, 7])) = None
   \<and> SrcMAC (fst (SetSrcMAC NewBaseAction (Some [1, 2, 3, 4, 5, 6, 7])))
       = (True, Some [1, 2, 3, 4, 5, 6, 7])
   \<and> DstMAC (fst (SetDstMAC NewBaseAction (Some [1, 2, 3, 4, 5, 6, 7])))
       = (True, Some [1, 2, 3, 4, 5, 6, 7])"
  using C8_rejects_exactly_short [of NewBaseAction "Some [1, 2, 3, 4, 5, 6, 7]"]
  by simp

section \<open>Properties of the discovery engine's packet handling\<close>

lemma remove_flows_map:
  "remove_flows e mac devices = map (\<lambda>device. Call_RemoveFlowByMAC device mac) devices"
  by (induction devices) (simp_all split: option.split)

text \<open>
  C3: an ARP reply (frame type 0x0806, decoded operation 2) whose sender hardware
  address differs from the fixed probe-source address is dropped: OnPacketIn returns nil
  and makes no call at all, so none to UpdateHostLocation and none to the next
  processor.
\<close>

theorem C3_foreign_reply_dropped:
  assumes "eth_Type eth = 0x0806"
    and "ARP_UnmarshalBinary e (eth_Payload eth) = Inr arp"
    and "Operation arp = 2"
    and "SHA arp \<noteq> myMAC"
  shows "OnPacketIn e finder ingress eth = (None, [])"
  using assms by (simp add: OnPacketIn_def)

theorem C3_foreign_reply_dropped_witness:
  "OnPacketIn (example_env (True, None)) example_finder example_port
     (example_arp_frame 2 [2, 0, 0, 0, 0, 5]) = (None, [])"
proof -
  let ?eth = "example_arp_frame 2 [2, 0, 0, 0, 0, 5]"
  let ?arp = "\<lparr>Operation = 2, SHA = [2, 0, 0, 0, 0, 5], THA = [2, 0, 0, 0, 0, 9],
               TPA = [10, 0, 0, 9]\<rparr>"
  have "eth_Type ?eth = 0x0806"
    by (simp add: example_defs)
  moreover have "ARP_UnmarshalBinary (example_env (True, None)) (eth_Payload ?eth) = Inr ?arp"
    by (simp add: example_defs)
  moreover have "Operation ?arp = 2" by simp
  moreover have "SHA ?arp \<noteq> myMAC" by (simp add: myMAC_def)
  ultimately show ?thesis
    by (rule C3_foreign_reply_dropped)
qed

text \<open>
  C4: when the store answers the update of a verified ARP reply with updated=true and no
  error, OnPacketIn calls RemoveFlowByMAC once on every device of \<^verbatim>\<open>finder.Devices()\<close>,
  in order, with the reply's target hardware address, whatever each removal returns: a
  failed removal does not stop the ones after it.
\<close>

theorem C4_flows_removed_on_every_device:
  assumes "eth_Type eth = 0x0806"
    and "ARP_UnmarshalBinary e (eth_Payload eth) = Inr arp"
    and "Operation arp = 2"
    and "SHA arp = myMAC"
    and "ParseUint_10_64 (ID (Device ingress)) = Some swDPID"
    and "UpdateHostLocation e (THA arp) (TPA arp) swDPID (of_nat (Number ingress)) = (True, None)"
  shows "OnPacketIn e finder ingress eth =
           (None,
            Call_UpdateHostLocation (THA arp) (TPA arp) swDPID (of_nat (Number ingress))
              # map (\<lambda>device. Call_RemoveFlowByMAC device (THA arp)) (Devices finder))"
  using assms by (simp add: OnPacketIn_def remove_flows_map)

theorem C4_flows_removed_on_every_device_witness:
  "RemoveFlowByMAC (example_env (True, None)) \<lparr>ID = ''2''\<rparr> [2, 0, 0, 0, 0, 9] = Some (ErrExternal 1)
   \<and> OnPacketIn (example_env (True, None)) example_finder example_port (example_arp_frame 2 myMAC)
     = (None,
        [Call_UpdateHostLocation [2, 0, 0, 0, 0, 9] [10, 0, 0, 9] 42 7,
         Call_RemoveFlowByMAC \<lparr>ID = ''1''\<rparr> [2, 0, 0, 0, 0, 9],
         Call_RemoveFlowByMAC \<lparr>ID = ''2''\<rparr> [2, 0, 0, 0, 0, 9],
         Call_RemoveFlowByMAC \<lparr>ID = ''3''\<rparr> [2, 0, 0, 0, 0, 9]])"
proof -
  let ?e = "example_env (True, None)"
  let ?eth = "example_arp_frame 2 myMAC"
  let ?arp = "\<lparr>Operation = 2, SHA = myMAC, THA = [2, 0, 0, 0, 0, 9], TPA = [10, 0, 0, 9]\<rparr>"
  have 1: "eth_Type ?eth = 0x0806"
    by (simp add: example_defs)
  have 2: "ARP_UnmarshalBinary ?e (eth_Payload ?eth) = Inr ?arp"
    by (simp add: example_defs)
  have 3: "Operation ?arp = 2" by simp
  have 4: "SHA ?arp = myMAC" by simp
  have 5: "ParseUint_10_64 (ID (Device example_port)) = Some 42"
    by (simp add: example_defs)
  have 6: "UpdateHostLocation ?e (THA ?arp) (TPA ?arp) 42 (of_nat (Number example_port))
             = (True, None)"
    by (simp add: example_defs)
  have 7: "RemoveFlowByMAC ?e \<lparr>ID = ''2''\<rparr> [2, 0, 0, 0, 0, 9] = Some (ErrExternal 1)"
    by (simp add: example_defs)
  from C4_flows_removed_on_every_device [OF 1 2 3 4 5 6, of example_finder] 7
  show ?thesis
    by (simp add: example_finder_def example_port_def)
qed

text \<open>
  C5 (as stated, refuted): a frame of type 0x0806 that carries the first 8 bytes of an
  ARP request (operation code 1 on the wire) is not an ARP reply; the decoder rejects
  the truncated payload and OnPacketIn returns the decoder's error without a call to the
  next processor.
\<close>

theorem C5_counterexample:
  "eth_Type \<lparr>eth_SrcMAC = [2, 0, 0, 0, 0, 9], eth_DstMAC = myMAC, eth_Type = 0x0806,
              eth_Payload = [0, 1, 8, 0, 6, 4, 0, 1]\<rparr> = 0x0806
   \<and> (big_endian (take 2 (drop 6 [0, 1, 8, 0, 6, 4, 0, 1 :: byte])) :: 16 word) = 1
   \<and> OnPacketIn (example_env (False, None)) example_finder example_port
        \<lparr>eth_SrcMAC = [2, 0, 0, 0, 0, 9], eth_DstMAC = myMAC, eth_Type = 0x0806,
         eth_Payload = [0, 1, 8, 0, 6, 4, 0, 1]\<rparr>
       = (Some (ErrExternal 0), [])"
  by (simp add: OnPacketIn_def example_defs)

text \<open>
  C5 (amended): a frame whose type is not 0x0806, and a frame of type 0x0806 whose
  payload decodes to an ARP packet with an operation other than 2, is handed unmodified
  to the next processor, whose result OnPacketIn returns, and nothing else is called.  A
  frame of type 0x0806 whose payload does not decode is not handed on: OnPacketIn
  returns the decoder's error and calls nothing.  Whenever OnPacketIn does anything but
  hand the frame on, the frame has type 0x0806 and its payload either does not decode or
  decodes to a reply.
\<close>

theorem C5_forwards_unless_arp_reply:
  "(eth_Type eth \<noteq> 0x0806
      \<or> (\<exists>arp. ARP_UnmarshalBinary e (eth_Payload eth) = Inr arp \<and> Operation arp \<noteq> 2)
    \<longrightarrow> OnPacketIn e finder ingress eth
          = (BaseProcessor_OnPacketIn e finder ingress eth,
             [Call_BaseProcessor_OnPacketIn finder ingress eth]))
   \<and> (eth_Type eth = 0x0806 \<and> ARP_UnmarshalBinary e (eth_Payload eth) = Inl err
    \<longrightarrow> OnPacketIn e finder ingress eth = (Some err, []))
   \<and> (snd (OnPacketIn e finder ingress eth) \<noteq> [Call_BaseProcessor_OnPacketIn finder ingress eth]
    \<longrightarrow> eth_Type eth = 0x0806
        \<and> (\<forall>arp. ARP_UnmarshalBinary e (eth_Payload eth) = Inr arp \<longrightarrow> Operation arp = 2))"
proof -
  let ?forwarded = "(BaseProcessor_OnPacketIn e finder ingress eth,
                     [Call_BaseProcessor_OnPacketIn finder ingress eth])"
  have other_type: "OnPacketIn e finder ingress eth = ?forwarded"
    if "eth_Type eth \<noteq> 0x0806"
    using that by (simp add: OnPacketIn_def)
  have no_reply: "OnPacketIn e finder ingress eth = ?forwarded"
    if "ARP_UnmarshalBinary e (eth_Payload eth) = Inr arp" and "Operation arp \<noteq> 2" for arp
    using that by (simp add: OnPacketIn_def)
  have undecoded: "OnPacketIn e finder ingress eth = (Some err, [])"
    if "eth_Type eth = 0x0806" and "ARP_UnmarshalBinary e (eth_Payload eth) = Inl err"
    using that by (simp add: OnPacketIn_def)
  have consumed: "eth_Type eth = 0x0806
      \<and> (\<forall>arp. ARP_UnmarshalBinary e (eth_Payload eth) = Inr arp \<longrightarrow> Operation arp = 2)"
    if kept: "snd (OnPacketIn e finder ingress eth)
                \<noteq> [Call_BaseProcessor_OnPacketIn finder ingress eth]"
  proof (intro conjI allI impI)
    show "eth_Type eth = 0x0806"
    proof (rule ccontr)
      assume "eth_Type eth \<noteq> 0x0806"
      then have "snd (OnPacketIn e finder ingress eth)
                   = [Call_BaseProcessor_OnPacketIn finder ingress eth]"
        using other_type by simp
      with kept show False by simp
    qed
  next
    fix arp
    assume decoded: "ARP_UnmarshalBinary e (eth_Payload eth) = Inr arp"
    show "Operation arp = 2"
    proof (rule ccontr)
      assume "Operation arp \<noteq> 2"
      with decoded have "snd (OnPacketIn e finder ingress eth)
                   = [Call_BaseProcessor_OnPacketIn finder ingress eth]"
        using no_reply by simp
      with kept show False by simp
    qed
  qed
  from other_type no_reply undecoded consumed show ?thesis
    by blast
qed

theorem C5_forwards_unless_arp_reply_witness:
  "OnPacketIn (example_env (False, None)) example_finder example_port
     (example_arp_frame 1 [2, 0, 0, 0, 0, 5])
     = (None, [Call_BaseProcessor_OnPacketIn example_finder example_port
                 (example_arp_frame 1 [2, 0, 0, 0, 0, 5])])
   \<and> OnPacketIn (example_env (False, None)) example_finder example_port
        ((example_arp_frame 2 myMAC)\<lparr>eth_Type := 0x0800\<rparr>)
     = (None, [Call_BaseProcessor_OnPacketIn example_finder example_port
                 ((example_arp_frame 2 myMAC)\<lparr>eth_Type := 0x0800\<rparr>)])
   \<and> OnPacketIn (example_env (False, None)) example_finder example_port
        ((example_arp_frame 1 myMAC)\<lparr>eth_Payload := []\<rparr>) = (Some (ErrExternal 0), [])"
proof -
  let ?e = "example_env (False, None)"
  let ?req = "example_arp_frame 1 [2, 0, 0, 0, 0, 5]"
  let ?ip = "(example_arp_frame 2 myMAC)\<lparr>eth_Type := 0x0800\<rparr>"
  let ?bad = "(example_arp_frame 1 myMAC)\<lparr>eth_Payload := []\<rparr>"
  have req: "eth_Type ?req \<noteq> 0x0806
      \<or> (\<exists>arp. ARP_UnmarshalBinary ?e (eth_Payload ?req) = Inr arp \<and> Operation arp \<noteq> 2)"
    by (simp add: example_defs)
  have ip: "eth_Type ?ip \<noteq> 0x0806
      \<or> (\<exists>arp. ARP_UnmarshalBinary ?e (eth_Payload ?ip) = Inr arp \<and> Operation arp \<noteq> 2)"
    by simp
  have bad: "eth_Type ?bad = 0x0806
      \<and> ARP_UnmarshalBinary ?e (eth_Payload ?bad) = Inl (ErrExternal 0)"
    by (simp add: example_defs)
  have forward: "BaseProcessor_OnPacketIn ?e f i x = None" for f i x
    by (simp add: example_env_def)
  have 1: "OnPacketIn ?e example_finder example_port ?req
             = (None, [Call_BaseProcessor_OnPacketIn example_finder example_port ?req])"
    using C5_forwards_unless_arp_reply [where eth = ?req and e = ?e
            and finder = example_finder and ingress = example_port, THEN conjunct1, rule_format, OF req]
    by (simp only: forward)
  have 2: "OnPacketIn ?e example_finder example_port ?ip
             = (None, [Call_BaseProcessor_OnPacketIn example_finder example_port ?ip])"
    using C5_forwards_unless_arp_reply [where eth = ?ip and e = ?e
            and finder = example_finder and ingress = example_port, THEN conjunct1, rule_format, OF ip]
    by (simp only: forward)
  have 3: "OnPacketIn ?e example_finder example_port ?bad = (Some (ErrExternal 0), [])"
    using C5_forwards_unless_arp_reply [where eth = ?bad and e = ?e and err = "ErrExternal 0"
            and finder = example_finder and ingress = example_port,
            THEN conjunct2, THEN conjunct1, rule_format, OF bad] .
  from 1 2 3 show ?thesis
    by (intro conjI)
qed

lemma parse_digits_value:
  "parse_digits n s = Some m \<Longrightarrow>
     m = foldl (\<lambda>n c. n * 10 + (of_char c - 48)) n s \<and> (s \<noteq> [] \<longrightarrow> m < 2 ^ 64)"
proof (induction s arbitrary: n)
  case Nil
  then show ?case by simp
next
  case (Cons c cs)
  from Cons.prems obtain d where d: "digit_of c = Some d"
    by (cases "digit_of c") simp_all
  with Cons.prems have small: "n * 10 + d \<le> 2 ^ 64 - 1"
    and rest: "parse_digits (n * 10 + d) cs = Some m"
    by (simp_all split: if_splits)
  from d have dval: "d = of_char c - 48"
    by (auto simp: digit_of_def Let_def split: if_splits)
  from Cons.IH [OF rest] small dval show ?case
    by (cases cs) auto
qed

lemma ParseUint_10_64_value:
  assumes "ParseUint_10_64 s = Some w"
  shows "unat w = decimal_value s"
proof -
  from assms obtain m where ne: "s \<noteq> []" and m: "parse_digits 0 s = Some m" and w: "w = of_nat m"
    by (auto simp: ParseUint_10_64_def split: if_splits)
  from parse_digits_value [OF m] ne have "m = decimal_value s" and "m < 2 ^ 64"
    by (simp_all add: decimal_value_def)
  with w show ?thesis
    by (simp add: unat_of_nat)
qed

lemma digit_codes:
  "48 \<le> (n :: nat) \<Longrightarrow> n \<le> 57 \<Longrightarrow> n \<in> {48, 49, 50, 51, 52, 53, 54, 55, 56, 57}"
  by (simp only: insert_iff empty_iff) arith

lemma digit_of_iff:
  "digit_of c = Some d \<longleftrightarrow> c \<in> set ''0123456789'' \<and> d = of_char c - 48"
proof
  assume "digit_of c = Some d"
  then have range: "48 \<le> (of_char c :: nat)" "(of_char c :: nat) \<le> 57"
    and d: "d = of_char c - 48"
    by (auto simp: digit_of_def Let_def split: if_splits)
  have codes: "of_char ` set ''0123456789'' = {48, 49, 50, 51, 52, 53, 54, 55, 56, 57 :: nat}"
    by simp
  from range have "(of_char c :: nat) \<in> {48, 49, 50, 51, 52, 53, 54, 55, 56, 57}"
    by (rule digit_codes)
  then have "(of_char c :: nat) \<in> of_char ` set ''0123456789''"
    by (simp only: codes)
  then obtain c' where c': "c' \<in> set ''0123456789''" and same: "(of_char c :: nat) = of_char c'"
    by (rule imageE)
  from same have "c = c'"
    by (simp only: of_char_eq_iff)
  with c' have "c \<in> set ''0123456789''"
    by simp
  with d show "c \<in> set ''0123456789'' \<and> d = of_char c - 48"
    by simp
next
  assume "c \<in> set ''0123456789'' \<and> d = of_char c - 48"
  then show "digit_of c = Some d"
    by (auto simp: digit_of_def)
qed

lemma foldl_decimal_ge:
  "(n :: nat) \<le> foldl (\<lambda>n c. n * 10 + (of_char c - 48)) n s"
proof (induction s arbitrary: n)
  case Nil
  then show ?case by simp
next
  case (Cons c cs)
  have "n \<le> n * 10 + (of_char c - 48)"
    by simp
  also have "\<dots> \<le> foldl (\<lambda>n c. n * 10 + (of_char c - 48)) (n * 10 + (of_char c - 48)) cs"
    by (rule Cons.IH)
  finally show ?case by simp
qed

lemma parse_digits_complete:
  assumes "list_all (\<lambda>c. c \<in> set ''0123456789'') s"
    and "foldl (\<lambda>n c. n * 10 + (of_char c - 48)) n s < 2 ^ 64"
  shows "parse_digits n s = Some (foldl (\<lambda>n c. n * 10 + (of_char c - 48)) n s)"
  using assms
proof (induction s arbitrary: n)
  case Nil
  then show ?case by simp
next
  case (Cons c cs)
  let ?d = "of_char c - 48 :: nat"
  from Cons.prems(1) have digit: "digit_of c = Some ?d" and rest: "list_all (\<lambda>c. c \<in> set ''0123456789'') cs"
    by (simp_all add: digit_of_iff)
  from Cons.prems(2) have below: "foldl (\<lambda>n c. n * 10 + (of_char c - 48)) (n * 10 + ?d) cs < 2 ^ 64"
    by simp
  with foldl_decimal_ge [of "n * 10 + ?d" cs] have step: "n * 10 + ?d < 2 ^ 64"
    by (rule le_less_trans)
  then have "\<not> cutoff \<le> n" and "\<not> 2 ^ 64 - 1 < n * 10 + ?d"
    by (simp_all add: cutoff_def)
  with digit Cons.IH [OF rest below] show ?case
    by simp
qed

lemma parse_digits_digits:
  "parse_digits n s = Some m \<Longrightarrow> list_all (\<lambda>c. c \<in> set ''0123456789'') s"
proof (induction s arbitrary: n)
  case Nil
  then show ?case by simp
next
  case (Cons c cs)
  from Cons.prems obtain d where d: "digit_of c = Some d"
    by (cases "digit_of c") simp_all
  with Cons.prems have "parse_digits (n * 10 + d) cs = Some m"
    by (simp split: if_splits)
  from Cons.IH [OF this] d show ?case
    by (simp add: digit_of_iff)
qed

lemma ParseUint_10_64_iff:
  "ParseUint_10_64 s = Some w \<longleftrightarrow>
     is_decimal s \<and> decimal_value s < 2 ^ 64 \<and> w = of_nat (decimal_value s)"
proof
  assume parsed: "ParseUint_10_64 s = Some w"
  then obtain m where ne: "s \<noteq> []" and m: "parse_digits 0 s = Some m" and w: "w = of_nat m"
    by (auto simp: ParseUint_10_64_def split: if_splits)
  from parse_digits_value [OF m] ne have "m = decimal_value s" and "m < 2 ^ 64"
    by (simp_all add: decimal_value_def)
  with w ne parse_digits_digits [OF m]
  show "is_decimal s \<and> decimal_value s < 2 ^ 64 \<and> w = of_nat (decimal_value s)"
    by (simp add: is_decimal_def)
next
  assume "is_decimal s \<and> decimal_value s < 2 ^ 64 \<and> w = of_nat (decimal_value s)"
  then have ne: "s \<noteq> []" and digits: "list_all (\<lambda>c. c \<in> set ''0123456789'') s"
    and below: "foldl (\<lambda>n c. n * 10 + (of_char c - 48)) (0 :: nat) s < 2 ^ 64"
    and w: "w = of_nat (decimal_value s)"
    by (simp_all add: is_decimal_def decimal_value_def)
  from parse_digits_complete [OF digits below] ne w show "ParseUint_10_64 s = Some w"
    by (simp add: ParseUint_10_64_def decimal_value_def)
qed

lemma ParseUint_10_64_None_iff:
  "ParseUint_10_64 s = None \<longleftrightarrow> \<not> (is_decimal s \<and> decimal_value s < 2 ^ 64)"
proof (cases "ParseUint_10_64 s")
  case None
  with ParseUint_10_64_iff [of s "of_nat (decimal_value s)"] show ?thesis
    by auto
next
  case (Some w)
  with ParseUint_10_64_iff [of s w] show ?thesis
    by auto
qed

text \<open>
  C10: on a verified ARP reply (type 0x0806, decoded operation 2, sender hardware
  address equal to the probe source) whose ingress device id is a decimal numeral below
  \<open>2 ^ 64\<close>, the first call is UpdateHostLocation with the reply's target hardware
  address and target protocol address (not the sender's), the datapath id whose value is
  the number the id writes in decimal, and the ingress port number converted to
  \<^verbatim>\<open>uint16\<close> (its low 16 bits); every later call is a flow removal.  For every other
  id OnPacketIn returns the invalid-device-id error and calls nothing.
\<close>

theorem C10_update_keyed_by_target:
  assumes "eth_Type eth = 0x0806"
    and "ARP_UnmarshalBinary e (eth_Payload eth) = Inr arp"
    and "Operation arp = 2"
    and "SHA arp = myMAC"
  shows "(is_decimal (ID (Device ingress)) \<and> decimal_value (ID (Device ingress)) < 2 ^ 64 \<longrightarrow>
            unat (of_nat (decimal_value (ID (Device ingress))) :: 64 word)
              = decimal_value (ID (Device ingress))
          \<and> (\<exists>removals.
                snd (OnPacketIn e finder ingress eth)
                  = Call_UpdateHostLocation (THA arp) (TPA arp)
                      (of_nat (decimal_value (ID (Device ingress))))
                      (of_nat (Number ingress))
                    # removals
              \<and> (\<forall>c \<in> set removals. \<exists>device. c = Call_RemoveFlowByMAC device (THA arp))))
       \<and> (\<not> (is_decimal (ID (Device ingress)) \<and> decimal_value (ID (Device ingress)) < 2 ^ 64) \<longrightarrow>
            OnPacketIn e finder ingress eth
              = (Some (ErrInvalidDeviceID (ID (Device ingress))), []))
       \<and> unat (of_nat (Number ingress) :: 16 word) = Number ingress mod 2 ^ 16"
proof (intro conjI impI)
  let ?id = "ID (Device ingress)"
  let ?swDPID = "of_nat (decimal_value ?id) :: 64 word"
  assume decimal: "is_decimal ?id \<and> decimal_value ?id < 2 ^ 64"
  then have parsed: "ParseUint_10_64 ?id = Some ?swDPID"
    by (simp add: ParseUint_10_64_iff)
  then show "unat ?swDPID = decimal_value ?id"
    by (rule ParseUint_10_64_value)
  let ?update = "Call_UpdateHostLocation (THA arp) (TPA arp) ?swDPID (of_nat (Number ingress))"
  obtain updated err
    where answer: "UpdateHostLocation e (THA arp) (TPA arp) ?swDPID (of_nat (Number ingress))
                     = (updated, err)"
    by (cases "UpdateHostLocation e (THA arp) (TPA arp) ?swDPID (of_nat (Number ingress))")
  have "snd (OnPacketIn e finder ingress eth)
          = ?update # (if updated \<and> err = None
                       then map (\<lambda>device. Call_RemoveFlowByMAC device (THA arp)) (Devices finder)
                       else [])"
    using assms parsed answer
    by (cases err) (simp_all add: OnPacketIn_def remove_flows_map)
  then show "\<exists>removals.
      snd (OnPacketIn e finder ingress eth) = ?update # removals
    \<and> (\<forall>c \<in> set removals. \<exists>device. c = Call_RemoveFlowByMAC device (THA arp))"
    by auto
next
  assume "\<not> (is_decimal (ID (Device ingress)) \<and> decimal_value (ID (Device ingress)) < 2 ^ 64)"
  then have "ParseUint_10_64 (ID (Device ingress)) = None"
    by (simp add: ParseUint_10_64_None_iff)
  with assms show "OnPacketIn e finder ingress eth
      = (Some (ErrInvalidDeviceID (ID (Device ingress))), [])"
    by (simp add: OnPacketIn_def)
next
  show "unat (of_nat (Number ingress) :: 16 word) = Number ingress mod 2 ^ 16"
    by (simp add: unat_of_nat)
qed

theorem C10_update_keyed_by_target_witness:
  "is_decimal ''42'' \<and> decimal_value ''42'' = 42
   \<and> snd (OnPacketIn (example_env (False, None)) example_finder example_port
          (example_arp_frame 2 myMAC))
     = [Call_UpdateHostLocation [2, 0, 0, 0, 0, 9] [10, 0, 0, 9] 42 7]
   \<and> OnPacketIn (example_env (False, None)) example_finder
        (example_port\<lparr>Device := \<lparr>ID = ''0x2a''\<rparr>\<rparr>) (example_arp_frame 2 myMAC)
     = (Some (ErrInvalidDeviceID ''0x2a''), [])"
proof -
  let ?e = "example_env (False, None)"
  let ?eth = "example_arp_frame 2 myMAC"
  let ?arp = "\<lparr>Operation = 2, SHA = myMAC, THA = [2, 0, 0, 0, 0, 9], TPA = [10, 0, 0, 9]\<rparr>"
  let ?hex = "example_port\<lparr>Device := \<lparr>ID = ''0x2a''\<rparr>\<rparr>"
  have 1: "eth_Type ?eth = 0x0806"
    by (simp add: example_defs)
  have 2: "ARP_UnmarshalBinary ?e (eth_Payload ?eth) = Inr ?arp"
    by (simp add: example_defs)
  have 3: "Operation ?arp = 2" by simp
  have 4: "SHA ?arp = myMAC" by simp
  have forty_two: "decimal_value ''42'' = 42"
    by (simp add: decimal_value_def)
  have 5: "is_decimal (ID (Device example_port))
      \<and> decimal_value (ID (Device example_port)) < 2 ^ 64"
    by (simp add: example_port_def is_decimal_def decimal_value_def)
  have 6: "\<not> (is_decimal (ID (Device ?hex)) \<and> decimal_value (ID (Device ?hex)) < 2 ^ 64)"
    by (simp add: is_decimal_def)
  have quiet: "UpdateHostLocation ?e mac ip d p = (False, None)" for mac ip d p
    by (simp add: example_env_def)
  note C10 = C10_update_keyed_by_target [OF 1 2 3 4]
  from C10 [of example_port example_finder, THEN conjunct1, rule_format, OF 5]
  obtain removals where calls: "snd (OnPacketIn ?e example_finder example_port ?eth)
      = Call_UpdateHostLocation [2, 0, 0, 0, 0, 9] [10, 0, 0, 9] 42 7 # removals"
    by (auto simp: example_port_def forty_two)
  have "snd (OnPacketIn ?e example_finder example_port ?eth)
      = [Call_UpdateHostLocation [2, 0, 0, 0, 0, 9] [10, 0, 0, 9] 42 7]"
    by (simp add: OnPacketIn_def example_defs)
  moreover from C10 [of ?hex example_finder, THEN conjunct2, THEN conjunct1, rule_format, OF 6]
  have "OnPacketIn ?e example_finder ?hex ?eth = (Some (ErrInvalidDeviceID ''0x2a''), [])"
    by simp
  moreover from 5 have "is_decimal ''42''"
    by (simp add: example_port_def)
  ultimately show ?thesis
    using forty_two calls by simp
qed

section \<open>Properties of the canceller table\<close>

lemma table_inv_New: "table_inv New"
  by (simp add: table_inv_def New_def)

lemma length_cancel: "length (cancel c ts) = length ts"
  by (simp add: cancel_def)

lemma nth_cancel:
  "i < length ts \<Longrightarrow>
     cancel c ts ! i = (if i = c then (ts ! i)\<lparr>cancelled := True\<rparr> else ts ! i)"
  by (simp add: cancel_def nth_list_update)

lemma removeARPSender_absent:
  "canceller r d = None \<Longrightarrow> removeARPSender r d = r"
  by (simp add: removeARPSender_def)

lemma removeARPSender_present:
  "canceller r d = Some c \<Longrightarrow>
     tasks (removeARPSender r d) = cancel c (tasks r)
   \<and> canceller (removeARPSender r d) = (canceller r)(d := None)"
  by (simp add: removeARPSender_def)

lemma canceller_removeARPSender: "canceller (removeARPSender r d) d = None"
  by (cases "canceller r d") (simp_all add: removeARPSender_def)

lemma length_removeARPSender: "length (tasks (removeARPSender r d)) = length (tasks r)"
  by (cases "canceller r d") (simp_all add: removeARPSender_def length_cancel)

lemma table_inv_removeARPSender:
  assumes "table_inv r"
  shows "table_inv (removeARPSender r d)"
proof (cases "canceller r d")
  case None
  with assms show ?thesis by (simp add: removeARPSender_absent)
next
  case (Some c)
  from assms Some have c: "c < length (tasks r)" "task_deviceID (tasks r ! c) = d"
    by (auto simp: table_inv_def)
  have entries: "c' < length (tasks r) \<and> task_deviceID (tasks r ! c') = d'
        \<and> \<not> cancelled (tasks r ! c') \<and> c' \<noteq> c"
    if "d' \<noteq> d" and "canceller r d' = Some c'" for d' c'
    using assms that c by (auto simp: table_inv_def)
  have live: "canceller r (task_deviceID (tasks r ! i)) = Some i"
    if "i < length (tasks r)" and "\<not> cancelled (tasks r ! i)" for i
    using assms that by (simp add: table_inv_def)
  show ?thesis
    unfolding table_inv_def
  proof (intro conjI allI impI)
    fix d' c'
    assume "canceller (removeARPSender r d) d' = Some c'"
    with Some have "d' \<noteq> d" and "canceller r d' = Some c'"
      by (auto simp: removeARPSender_present split: if_splits)
    from entries [OF this]
    show "c' < length (tasks (removeARPSender r d))"
      and "task_deviceID (tasks (removeARPSender r d) ! c') = d'"
      and "\<not> cancelled (tasks (removeARPSender r d) ! c')"
      using Some by (simp_all add: removeARPSender_present length_cancel nth_cancel)
  next
    fix i
    assume i: "i < length (tasks (removeARPSender r d))"
      and alive: "\<not> cancelled (tasks (removeARPSender r d) ! i)"
    from i have i': "i < length (tasks r)"
      by (simp add: length_removeARPSender)
    with alive Some have "i \<noteq> c" and "\<not> cancelled (tasks r ! i)"
      by (auto simp: removeARPSender_present nth_cancel split: if_splits)
    with live [OF i'] have "canceller r (task_deviceID (tasks r ! i)) = Some i"
      by simp
    moreover from this Some \<open>i \<noteq> c\<close> have "task_deviceID (tasks r ! i) \<noteq> d"
      by auto
    ultimately show "canceller (removeARPSender r d)
        (task_deviceID (tasks (removeARPSender r d) ! i)) = Some i"
      using Some i' \<open>i \<noteq> c\<close> by (simp add: removeARPSender_present nth_cancel)
  qed
qed

lemma table_inv_addARPSender:
  assumes "table_inv r" and "canceller r (ID device) = None"
  shows "table_inv (addARPSender r device)"
proof -
  let ?n = "length (tasks r)"
  let ?r' = "addARPSender r device"
  have tasks': "tasks ?r' = tasks r @ [\<lparr>task_deviceID = ID device, cancelled = False\<rparr>]"
    and table': "canceller ?r' = (canceller r)(ID device \<mapsto> ?n)"
    by (simp_all add: addARPSender_def)
  have old_entry: "c < ?n \<and> task_deviceID (tasks r ! c) = d \<and> \<not> cancelled (tasks r ! c)"
    if "canceller r d = Some c" for d c
    using assms(1) that by (simp add: table_inv_def)
  have old_live: "canceller r (task_deviceID (tasks r ! i)) = Some i"
    if "i < ?n" and "\<not> cancelled (tasks r ! i)" for i
    using assms(1) that by (simp add: table_inv_def)
  show ?thesis
    unfolding table_inv_def
  proof (rule conjI; intro allI impI)
    fix d c
    assume entry: "canceller ?r' d = Some c"
    show "c < length (tasks ?r') \<and> task_deviceID (tasks ?r' ! c) = d
            \<and> \<not> cancelled (tasks ?r' ! c)"
    proof (cases "d = ID device")
      case True
      with entry have "c = ?n" by (simp add: table')
      with True show ?thesis by (simp add: tasks')
    next
      case False
      with entry have "canceller r d = Some c" by (simp add: table')
      from old_entry [OF this] show ?thesis by (simp add: tasks' nth_append)
    qed
  next
    fix i
    assume i: "i < length (tasks ?r')" and alive: "\<not> cancelled (tasks ?r' ! i)"
    show "canceller ?r' (task_deviceID (tasks ?r' ! i)) = Some i"
    proof (cases "i < ?n")
      case True
      with alive have "\<not> cancelled (tasks r ! i)" by (simp add: tasks' nth_append)
      from old_live [OF True this] have old: "canceller r (task_deviceID (tasks r ! i)) = Some i" .
      with assms(2) have "task_deviceID (tasks r ! i) \<noteq> ID device" by auto
      with old True show ?thesis by (simp add: tasks' table' nth_append)
    next
      case False
      with i have "i = ?n" by (simp add: tasks')
      then show ?thesis by (simp add: tasks' table')
    qed
  qed
qed

lemma table_inv_OnDeviceUp:
  "table_inv r \<Longrightarrow> table_inv (fst (OnDeviceUp e r finder device))"
  by (simp add: OnDeviceUp_def Let_def table_inv_addARPSender table_inv_removeARPSender
        canceller_removeARPSender)

lemma fst_OnDeviceDown:
  "fst (OnDeviceDown e r finder device) = removeARPSender r (ID device)"
  by (simp add: OnDeviceDown_def Let_def split: option.split)

lemma table_inv_handle: "table_inv r \<Longrightarrow> table_inv (handle e r ev)"
  by (cases ev) (simp_all add: table_inv_OnDeviceUp fst_OnDeviceDown table_inv_removeARPSender)

lemma table_inv_foldl: "table_inv r \<Longrightarrow> table_inv (foldl (handle e) r events)"
  by (induction events arbitrary: r) (simp_all add: table_inv_handle)

lemma table_inv_run: "table_inv (run e events)"
  by (simp add: run_def table_inv_foldl table_inv_New)

lemma filter_upt_single: "c < n \<Longrightarrow> filter (\<lambda>i. i = c) [0..<n] = [c]"
proof (induction n)
  case 0
  then show ?case by simp
next
  case (Suc n)
  show ?case
  proof (cases "c = n")
    case True
    have "filter (\<lambda>i. i = n) [0..<n] = []"
      by (simp add: filter_empty_conv)
    with True show ?thesis by simp
  next
    case False
    with Suc show ?thesis by simp
  qed
qed

lemma live_tasks_table:
  assumes "table_inv r"
  shows "live_tasks r d = (case canceller r d of None \<Rightarrow> [] | Some c \<Rightarrow> [c])"
proof -
  let ?n = "length (tasks r)"
  have same: "(task_deviceID (tasks r ! i) = d \<and> \<not> cancelled (tasks r ! i))
                \<longleftrightarrow> canceller r d = Some i" if "i \<in> set [0..<?n]" for i
    using assms that by (auto simp: table_inv_def)
  have live: "live_tasks r d = filter (\<lambda>i. canceller r d = Some i) [0..<?n]"
    unfolding live_tasks_def by (rule filter_cong [OF refl]) (rule same)
  show ?thesis
  proof (cases "canceller r d")
    case None
    then show ?thesis by (simp add: live)
  next
    case (Some c)
    with assms have "c < ?n" by (simp add: table_inv_def)
    then have "filter (\<lambda>i. i = c) [0..<?n] = [c]"
      by (rule filter_upt_single)
    moreover have "(\<lambda>i. canceller r d = Some i) = (\<lambda>i. i = c)"
      using Some by auto
    ultimately show ?thesis using Some by (simp add: live)
  qed
qed

lemma OnDeviceUp_effect:
  "tasks (fst (OnDeviceUp e r finder device))
     = tasks (removeARPSender r (ID device)) @ [\<lparr>task_deviceID = ID device, cancelled = False\<rparr>]
   \<and> canceller (fst (OnDeviceUp e r finder device)) (ID device) = Some (length (tasks r))"
  by (simp add: OnDeviceUp_def Let_def addARPSender_def length_removeARPSender)

lemma run_snoc: "run e (events @ [ev]) = handle e (run e events) ev"
  by (simp add: run_def)

lemma run_snoc2: "run e (events @ [ev1, ev2]) = handle e (handle e (run e events) ev1) ev2"
  by (simp add: run_def)

text \<open>
  Device events handled one after the other, each handler running to its end: after any
  sequence of device-up and device-down events from a new processor, the live probing
  tasks of a device id are exactly the task its canceller-table entry names, and none
  when it has no entry; so at most one task per device id is live.  After two
  consecutive device-ups for one device id the task of the first is cancelled, the task
  of the second is the only live one, and the table's entry for the id names it.
\<close>

lemma one_live_task_when_handled_in_turn:
  "live_tasks (run e events) d
     = (case canceller (run e events) d of None \<Rightarrow> [] | Some c \<Rightarrow> [c])
   \<and> length (live_tasks (run e events) d) \<le> 1
   \<and> (let r1 = run e (events @ [DeviceUp finder device]);
           r2 = run e (events @ [DeviceUp finder device, DeviceUp finder' device])
       in live_tasks r1 (ID device) = [length (tasks r1) - 1]
        \<and> length (tasks r2) = Suc (length (tasks r1))
        \<and> cancelled (tasks r2 ! (length (tasks r1) - 1))
        \<and> live_tasks r2 (ID device) = [length (tasks r2) - 1]
        \<and> canceller r2 (ID device) = Some (length (tasks r2) - 1))"
proof -
  let ?r0 = "run e events"
  let ?r1 = "run e (events @ [DeviceUp finder device])"
  let ?r2 = "run e (events @ [DeviceUp finder device, DeviceUp finder' device])"
  have live: "live_tasks (run e evs) d'
      = (case canceller (run e evs) d' of None \<Rightarrow> [] | Some c \<Rightarrow> [c])" for evs d'
    by (rule live_tasks_table) (rule table_inv_run)
  have r1: "?r1 = fst (OnDeviceUp e ?r0 finder device)"
    by (simp add: run_snoc)
  have r2: "?r2 = fst (OnDeviceUp e ?r1 finder' device)"
    by (simp add: run_snoc2 run_snoc)
  have len1: "length (tasks ?r1) = Suc (length (tasks ?r0))"
    by (simp add: r1 OnDeviceUp_effect length_removeARPSender)
  have table1: "canceller ?r1 (ID device) = Some (length (tasks ?r1) - 1)"
    unfolding len1 by (simp add: r1 OnDeviceUp_effect)
  have len2: "length (tasks ?r2) = Suc (length (tasks ?r1))"
    unfolding r2 by (simp add: OnDeviceUp_effect length_removeARPSender)
  have table2: "canceller ?r2 (ID device) = Some (length (tasks ?r2) - 1)"
    unfolding len2 unfolding r2 by (simp add: OnDeviceUp_effect)
  have "tasks ?r2 ! (length (tasks ?r1) - 1)
          = cancel (length (tasks ?r1) - 1) (tasks ?r1) ! (length (tasks ?r1) - 1)"
    unfolding r2 using table1 len1
    by (simp add: OnDeviceUp_effect removeARPSender_present nth_append length_cancel)
  then have stopped: "cancelled (tasks ?r2 ! (length (tasks ?r1) - 1))"
    using len1 by (simp add: nth_cancel)
  have one: "length (live_tasks ?r0 d) \<le> 1"
    by (simp add: live split: option.split)
  from live [of events d] one live [of "events @ [DeviceUp finder device]" "ID device"]
    live [of "events @ [DeviceUp finder device, DeviceUp finder' device]" "ID device"]
    table1 table2 len2 stopped
  show ?thesis
    by (simp add: Let_def)
qed

lemma one_live_task_when_handled_in_turn_example:
  "live_tasks (run (example_env (False, None))
       [DeviceUp example_finder \<lparr>ID = ''1''\<rparr>, DeviceUp example_finder \<lparr>ID = ''1''\<rparr>]) ''1'' = [1]
   \<and> canceller (run (example_env (False, None))
       [DeviceUp example_finder \<lparr>ID = ''1''\<rparr>, DeviceUp example_finder \<lparr>ID = ''1''\<rparr>]) ''1'' = Some 1
   \<and> cancelled (tasks (run (example_env (False, None))
       [DeviceUp example_finder \<lparr>ID = ''1''\<rparr>, DeviceUp example_finder \<lparr>ID = ''1''\<rparr>]) ! 0)"
proof -
  let ?e = "example_env (False, None)"
  let ?up = "DeviceUp example_finder \<lparr>ID = ''1''\<rparr>"
  have first: "length (tasks (run ?e [?up])) = 1"
    by (simp add: run_def OnDeviceUp_def Let_def removeARPSender_def addARPSender_def New_def)
  from one_live_task_when_handled_in_turn [of ?e "[]" "''1''" example_finder "\<lparr>ID = ''1''\<rparr>"
      example_finder] first
  show ?thesis
    by (simp add: Let_def)
qed

lemma OnDeviceUp_schedule:
  "fst (OnDeviceUp e r finder device) = schedule r (OnDeviceUp_sections device)"
  by (simp add: OnDeviceUp_def Let_def schedule_def OnDeviceUp_sections_def)

text \<open>
  C2 (the code at a failing input): two device-up handlers for the device id 1 run at
  the same time on a new processor and take turns as remove, remove, add, add.  Neither
  removal finds an entry; each add starts a task, and the second add overwrites the
  entry of the first without cancelling its task.  Two probing tasks of the one device
  id are live, and the table has one entry.
\<close>

theorem C2_interleaved_device_ups_leave_two_live_tasks:
  "[Locked_removeARPSender ''1'', Locked_removeARPSender ''1'',
    Locked_addARPSender \<lparr>ID = ''1''\<rparr>, Locked_addARPSender \<lparr>ID = ''1''\<rparr>]
     \<in> set (interleavings (OnDeviceUp_sections \<lparr>ID = ''1''\<rparr>) (OnDeviceUp_sections \<lparr>ID = ''1''\<rparr>))
   \<and> live_tasks (schedule New
        [Locked_removeARPSender ''1'', Locked_removeARPSender ''1'',
         Locked_addARPSender \<lparr>ID = ''1''\<rparr>, Locked_addARPSender \<lparr>ID = ''1''\<rparr>]) ''1'' = [0, 1]
   \<and> canceller (schedule New
        [Locked_removeARPSender ''1'', Locked_removeARPSender ''1'',
         Locked_addARPSender \<lparr>ID = ''1''\<rparr>, Locked_addARPSender \<lparr>ID = ''1''\<rparr>]) ''1'' = Some 1"
proof -
  let ?d = "\<lparr>ID = ''1''\<rparr>"
  let ?turns = "[Locked_removeARPSender ''1'', Locked_removeARPSender ''1'',
                 Locked_addARPSender ?d, Locked_addARPSender ?d]"
  have turns: "?turns \<in> set (interleavings (OnDeviceUp_sections ?d) (OnDeviceUp_sections ?d))"
    by (simp add: OnDeviceUp_sections_def)
  have after: "schedule New ?turns =
      \<lparr>canceller = [''1'' \<mapsto> 1],
       tasks = [\<lparr>task_deviceID = ''1'', cancelled = False\<rparr>,
                \<lparr>task_deviceID = ''1'', cancelled = False\<rparr>]\<rparr>"
    by (simp add: schedule_def New_def removeARPSender_def addARPSender_def)
  have "live_tasks (schedule New ?turns) ''1'' = [0, 1]"
    unfolding after by (simp add: live_tasks_def upt_conv_Cons)
  moreover have "canceller (schedule New ?turns) ''1'' = Some 1"
    unfolding after by simp
  ultimately show ?thesis
    using turns by simp
qed

section \<open>Properties of the codec\<close>

lemma unat_port_offset:
  assumes "unat i < unat n" and "32 + 48 * unat n < 2 ^ 16"
  shows "unat (32 + i * 48 :: 16 word) = 32 + 48 * unat i"
proof -
  from assms have small: "32 + 48 * unat i < 65536"
    by simp
  then have "unat i * 48 < 65536"
    by simp
  then have "unat (i * 48) = unat i * 48"
    by (simp add: unat_word_ariths)
  with small show ?thesis
    by (simp add: unat_word_ariths)
qed

lemma unat_succ16:
  assumes "(i :: 16 word) < n"
  shows "unat (i + 1) = Suc (unat i)"
proof -
  from assms have "unat i < unat n"
    by (simp add: word_less_nat_alt)
  moreover have "unat n < 2 ^ 16"
    using unsigned_less [of n] by simp
  ultimately have "unat i + unat (1 :: 16 word) < 2 ^ LENGTH(16)"
    by simp
  then have "unat (i + 1) = unat i + unat (1 :: 16 word)"
    by (simp only: unat_add_lem)
  then show ?thesis by simp
qed

lemma ports_loop_done:
  "\<not> i < n \<Longrightarrow> ports_loop dec data n i acc = Inr acc"
  by (subst ports_loop.simps) simp

lemma ports_loop_step:
  assumes "i < n" and "32 + 48 * unat n \<le> length data" and "32 + 48 * unat n < 2 ^ 16"
  shows "ports_loop dec data n i acc =
           (case dec (port_window data (unat i)) of
              Inl err \<Rightarrow> Inl (Failed err)
            | Inr port \<Rightarrow> ports_loop dec data n (i + 1) (acc @ [port]))"
proof -
  from assms(1) have lt: "unat i < unat n"
    by (simp add: word_less_nat_alt)
  have offset: "unat (32 + i * 48 :: 16 word) = 32 + 48 * unat i"
    using lt assms(3) by (rule unat_port_offset)
  from lt assms(2) have room: "32 + 48 * unat i + 48 \<le> length data"
    by simp
  then have rest: "slice_from data (32 + 48 * unat i) = Some (drop (32 + 48 * unat i) data)"
    by (simp add: slice_from_def)
  from room have window:
    "sub_slice (drop (32 + 48 * unat i) data) 0 48 = Some (port_window data (unat i))"
    by (simp add: sub_slice_def port_window_def)
  show ?thesis
    by (subst ports_loop.simps) (simp add: assms(1) offset rest window)
qed

lemma ports_loop_decode_all:
  assumes "32 + 48 * unat n \<le> length data" and "32 + 48 * unat n < 2 ^ 16"
  shows "unat n - unat i = k \<Longrightarrow>
         ports_loop dec data n i acc =
           (case decode_all dec (map (port_window data) [unat i..<unat n]) of
              Inl err \<Rightarrow> Inl (Failed err)
            | Inr ps \<Rightarrow> Inr (acc @ ps))"
proof (induction k arbitrary: i acc)
  case 0
  then have stop: "\<not> i < n"
    by (simp add: word_less_nat_alt)
  from 0 have none: "[unat i..<unat n] = []"
    by simp
  show ?case
    unfolding none by (simp add: ports_loop_done [OF stop])
next
  case (Suc k)
  then have lt: "i < n" and lt': "unat i < unat n"
    by (simp_all add: word_less_nat_alt)
  have next_i: "unat (i + 1) = Suc (unat i)"
    using lt by (rule unat_succ16)
  with Suc.prems have "unat n - unat (i + 1) = k"
    by simp
  note IH = Suc.IH [OF this]
  have "[unat i..<unat n] = unat i # [unat (i + 1)..<unat n]"
    using lt' by (simp add: next_i upt_conv_Cons)
  then show ?case
    by (simp add: ports_loop_step [OF lt assms] IH split: sum.split)
qed

lemma decode_all_Inr_iff:
  "decode_all dec ws = Inr ps \<longleftrightarrow> map dec ws = map Inr ps"
proof (induction ws arbitrary: ps)
  case Nil
  then show ?case by auto
next
  case (Cons w ws)
  show ?case
  proof (cases "dec w")
    case (Inl err)
    then show ?thesis by (cases ps) auto
  next
    case (Inr p)
    show ?thesis
    proof (cases "decode_all dec ws")
      case (Inl err)
      with Cons.IH have "map dec ws \<noteq> map Inr ps'" for ps'
        by (metis sum.distinct(1))
      with Inl Inr show ?thesis by (cases ps) auto
    next
      case tail: (Inr qs)
      with Cons.IH have "map dec ws = map Inr ps' \<longleftrightarrow> ps' = qs" for ps'
        by (metis sum.inject(2))
      with tail Inr show ?thesis by (cases ps) auto
    qed
  qed
qed

lemma decode_all_total:
  "(\<forall>w \<in> set ws. \<exists>p. dec w = Inr p) \<Longrightarrow> \<exists>ps. decode_all dec ws = Inr ps"
  by (induction ws) auto

lemma fixed_reads:
  assumes "32 \<le> length data"
  shows "\<exists>dpid numBuffers numTables capabilities actions.
           Option.bind (sub_slice data 8 16) Uint64 = Some dpid
         \<and> Option.bind (sub_slice data 16 20) Uint32 = Some numBuffers
         \<and> index_at data 20 = Some numTables
         \<and> Option.bind (sub_slice data 24 28) Uint32 = Some capabilities
         \<and> Option.bind (sub_slice data 28 32) Uint32 = Some actions"
  using assms by (simp add: sub_slice_def index_at_def Uint64_def Uint32_def)

lemma unat_nPorts:
  assumes "32 \<le> unat (l :: 16 word)"
  shows "unat ((l - 32) div 48) = (unat l - 32) div 48"
proof -
  from assms have "(32 :: 16 word) \<le> l"
    by (simp add: word_le_nat_alt)
  then have "unat (l - 32) = unat l - 32"
    by (simp add: unat_sub)
  then show ?thesis
    by (simp add: unat_div)
qed

lemma FeaturesReply_UnmarshalBinary_decode_all:
  assumes hdr: "Header_UnmarshalBinary data = Inr h"
    and min: "32 \<le> unat (Length h)"
    and fits: "unat (Length h) \<le> length data"
  shows "\<exists>r1. header r1 = h \<and> Ports r1 = Ports r \<and>
           FeaturesReply_UnmarshalBinary dec r data =
             (if (unat (Length h) - 32) div 48 = 0 then Inr r1
              else case decode_all dec
                     (map (port_window data) [0..<(unat (Length h) - 32) div 48]) of
                   Inl err \<Rightarrow> Inl (Failed err)
                 | Inr ps \<Rightarrow> Inr (r1\<lparr>Ports := ps\<rparr>))"
proof -
  let ?n = "(Length h - 32) div 48"
  have n: "unat ?n = (unat (Length h) - 32) div 48"
    using min by (rule unat_nPorts)
  have zero: "?n = 0 \<longleftrightarrow> (unat (Length h) - 32) div 48 = 0"
    using n by (simp add: unat_eq_0 [symmetric] del: unat_eq_0)
  have "unat (Length h) < 2 ^ 16"
    using unsigned_less [of "Length h"] by simp
  with min fits n have bounds: "32 + 48 * unat ?n \<le> length data" "32 + 48 * unat ?n < 2 ^ 16"
    by simp_all
  have loop: "ports_loop dec data ?n 0 [] =
      (case decode_all dec (map (port_window data) [0..<(unat (Length h) - 32) div 48]) of
         Inl err \<Rightarrow> Inl (Failed err)
       | Inr ps \<Rightarrow> Inr ps)"
    using ports_loop_decode_all [OF bounds, of 0 "unat ?n" dec "[]"] n
    by (simp split: sum.split)
  from min fits have "32 \<le> length data"
    by simp
  from fixed_reads [OF this] obtain dpid numBuffers numTables capabilities actions
    where reads: "Option.bind (sub_slice data 8 16) Uint64 = Some dpid"
      "Option.bind (sub_slice data 16 20) Uint32 = Some numBuffers"
      "index_at data 20 = Some numTables"
      "Option.bind (sub_slice data 24 28) Uint32 = Some capabilities"
      "Option.bind (sub_slice data 28 32) Uint32 = Some actions"
    by blast
  let ?r1 = "r\<lparr>header := h, DPID := dpid, NumBuffers := numBuffers, NumTables := numTables,
               Capabilities := getCapability capabilities,
               Actions := getSupportedAction actions\<rparr>"
  from min fits have guard: "\<not> (Length h < 32 \<or> length data < unat (Length h))"
    by (simp add: word_less_nat_alt)
  have "FeaturesReply_UnmarshalBinary dec r data =
          (if ?n = 0 then Inr ?r1
           else case ports_loop dec data ?n 0 [] of
                  Inl f \<Rightarrow> Inl f
                | Inr ports \<Rightarrow> Inr (?r1\<lparr>Ports := ports\<rparr>))"
    unfolding FeaturesReply_UnmarshalBinary_def
    by (simp only: hdr sum.case guard if_False reads need.simps Let_def)
  also have "\<dots> =
          (if (unat (Length h) - 32) div 48 = 0 then Inr ?r1
           else case decode_all dec
                  (map (port_window data) [0..<(unat (Length h) - 32) div 48]) of
                Inl err \<Rightarrow> Inl (Failed err)
              | Inr ps \<Rightarrow> Inr (?r1\<lparr>Ports := ps\<rparr>))"
    by (simp add: zero loop split: sum.split)
  finally have "FeaturesReply_UnmarshalBinary dec r data =
          (if (unat (Length h) - 32) div 48 = 0 then Inr ?r1
           else case decode_all dec
                  (map (port_window data) [0..<(unat (Length h) - 32) div 48]) of
                Inl err \<Rightarrow> Inl (Failed err)
              | Inr ps \<Rightarrow> Inr (?r1\<lparr>Ports := ps\<rparr>))" .
  moreover have "header ?r1 = h" and "Ports ?r1 = Ports r"
    by simp_all
  ultimately show ?thesis
    by blast
qed

lemma FeaturesReply_UnmarshalBinary_short:
  assumes "Header_UnmarshalBinary data = Inr h"
    and "Length h < 32 \<or> length data < unat (Length h)"
  shows "FeaturesReply_UnmarshalBinary dec r data = Inl (Failed ErrInvalidPacketLength)"
  using assms by (simp add: FeaturesReply_UnmarshalBinary_def)

lemma FeaturesReply_UnmarshalBinary_header_error:
  assumes "Header_UnmarshalBinary data = Inl err"
  shows "FeaturesReply_UnmarshalBinary dec r data = Inl (Failed err)"
  using assms by (simp add: FeaturesReply_UnmarshalBinary_def)

text \<open>
  C6: decoding into a new FeaturesReply.  An error of the header decode is returned as
  it is, and a header length below 32 is the invalid-packet-length error.  When the
  decode succeeds, the header length is at least 32, there are exactly
  (length - 32) / 48 ports, and the \<open>i\<close>-th port is what the port decoder yields on the
  \<open>i\<close>-th 48-byte window after offset 32: a length of 32 gives no port, a length of
  32 + 48 k gives k ports.  The decode succeeds whenever the port decoder accepts each of
  these windows.
\<close>

theorem C6_ports_from_windows:
  "(\<forall>err. Header_UnmarshalBinary data = Inl err \<longrightarrow>
       FeaturesReply_UnmarshalBinary dec new_FeaturesReply data = Inl (Failed err))
   \<and> (\<forall>h. Header_UnmarshalBinary data = Inr h \<longrightarrow>
       (Length h < 32 \<longrightarrow>
          FeaturesReply_UnmarshalBinary dec new_FeaturesReply data
            = Inl (Failed ErrInvalidPacketLength))
     \<and> (\<forall>v. FeaturesReply_UnmarshalBinary dec new_FeaturesReply data = Inr v \<longrightarrow>
            32 \<le> unat (Length h)
          \<and> length (Ports v) = (unat (Length h) - 32) div 48
          \<and> (\<forall>i < length (Ports v). dec (port_window data i) = Inr (Ports v ! i))
          \<and> (unat (Length h) = 32 \<longrightarrow> Ports v = [])
          \<and> (\<forall>k. unat (Length h) = 32 + 48 * k \<longrightarrow> length (Ports v) = k))
     \<and> (32 \<le> unat (Length h) \<and> unat (Length h) \<le> length data
          \<and> (\<forall>i < (unat (Length h) - 32) div 48. \<exists>p. dec (port_window data i) = Inr p)
        \<longrightarrow> (\<exists>v. FeaturesReply_UnmarshalBinary dec new_FeaturesReply data = Inr v)))"
proof (intro conjI allI impI)
  fix err
  assume "Header_UnmarshalBinary data = Inl err"
  then show "FeaturesReply_UnmarshalBinary dec new_FeaturesReply data = Inl (Failed err)"
    by (rule FeaturesReply_UnmarshalBinary_header_error)
next
  fix h :: Header
  assume "Header_UnmarshalBinary data = Inr h" and "Length h < 32"
  then show "FeaturesReply_UnmarshalBinary dec new_FeaturesReply data
      = Inl (Failed ErrInvalidPacketLength)"
    by (simp add: FeaturesReply_UnmarshalBinary_short)
next
  fix h :: Header and v :: "'a FeaturesReply"
  let ?n = "(unat (Length h) - 32) div 48"
  let ?r = "new_FeaturesReply :: 'a FeaturesReply"
  assume hdr: "Header_UnmarshalBinary data = Inr h"
    and ok: "FeaturesReply_UnmarshalBinary dec ?r data = Inr v"
  have guard: "\<not> (Length h < 32 \<or> length data < unat (Length h))"
    using FeaturesReply_UnmarshalBinary_short [OF hdr, of dec ?r] ok by auto
  then show min: "32 \<le> unat (Length h)"
    by (simp add: word_less_nat_alt)
  from guard have fits: "unat (Length h) \<le> length data"
    by simp
  from FeaturesReply_UnmarshalBinary_decode_all [OF hdr min fits, of ?r dec]
  obtain r1 where r1: "Ports r1 = Ports ?r"
    and eq: "FeaturesReply_UnmarshalBinary dec ?r data =
      (if ?n = 0 then Inr r1
       else case decode_all dec (map (port_window data) [0..<?n]) of
              Inl err \<Rightarrow> Inl (Failed err)
            | Inr ps \<Rightarrow> Inr (r1\<lparr>Ports := ps\<rparr>))"
    by blast
  have windows: "map dec (map (port_window data) [0..<?n]) = map Inr (Ports v)"
  proof (cases "?n = 0")
    case True
    with eq ok r1 have "Ports v = []"
      by (simp add: new_FeaturesReply_def)
    with True show ?thesis by simp
  next
    case False
    with eq ok obtain ps where "decode_all dec (map (port_window data) [0..<?n]) = Inr ps"
      and "v = r1\<lparr>Ports := ps\<rparr>"
      by (auto split: sum.splits)
    then show ?thesis
      by (simp add: decode_all_Inr_iff)
  qed
  from windows have "length (map dec (map (port_window data) [0..<?n]))
      = length (map Inr (Ports v) :: (error + 'a) list)"
    by simp
  then show count: "length (Ports v) = ?n"
    by simp
  show "dec (port_window data i) = Inr (Ports v ! i)" if "i < length (Ports v)" for i
  proof -
    from windows have "map dec (map (port_window data) [0..<?n]) ! i = map Inr (Ports v) ! i"
      by simp
    with that count show ?thesis
      by simp
  qed
  show "Ports v = []" if "unat (Length h) = 32"
    using count that by simp
  show "length (Ports v) = k" if "unat (Length h) = 32 + 48 * k" for k
    using count that by simp
next
  fix h :: Header
  let ?n = "(unat (Length h) - 32) div 48"
  let ?r = "new_FeaturesReply :: 'a FeaturesReply"
  assume hdr: "Header_UnmarshalBinary data = Inr h"
    and pre: "32 \<le> unat (Length h) \<and> unat (Length h) \<le> length data
          \<and> (\<forall>i < ?n. \<exists>p. dec (port_window data i) = Inr p)"
  then have "\<forall>w \<in> set (map (port_window data) [0..<?n]). \<exists>p. dec w = Inr p"
    by auto
  then obtain ps where ps: "decode_all dec (map (port_window data) [0..<?n]) = Inr ps"
    using decode_all_total by blast
  from pre have min: "32 \<le> unat (Length h)" and fits: "unat (Length h) \<le> length data"
    by simp_all
  from FeaturesReply_UnmarshalBinary_decode_all [OF hdr min fits, of ?r dec] ps
  show "\<exists>v. FeaturesReply_UnmarshalBinary dec ?r data = Inr v"
    by (cases "?n = 0") auto
qed

lemma example_header:
  "Header_UnmarshalBinary example_features_reply
     = Inr \<lparr>Version = 1, Type = 6, Length = 128, XID = 1\<rparr>"
  by (simp add: Header_UnmarshalBinary_def declared_length_def big_endian_def
        example_features_reply_def)

lemma example_windows:
  "example_Port_UnmarshalBinary (port_window example_features_reply 0) = Inr 1"
  "example_Port_UnmarshalBinary (port_window example_features_reply 1) = Inr 2"
  by (simp_all add: example_Port_UnmarshalBinary_def port_window_def big_endian_def
        example_features_reply_def)

theorem C6_ports_from_windows_witness:
  "Header_UnmarshalBinary example_features_reply
     = Inr \<lparr>Version = 1, Type = 6, Length = 128, XID = 1\<rparr>
   \<and> (\<exists>v. FeaturesReply_UnmarshalBinary example_Port_UnmarshalBinary new_FeaturesReply
             example_features_reply = Inr v
          \<and> Ports v = [1, 2])"
proof -
  let ?h = "\<lparr>Version = 1, Type = 6, Length = 128, XID = 1\<rparr>"
  let ?decode = "FeaturesReply_UnmarshalBinary example_Port_UnmarshalBinary new_FeaturesReply
                   example_features_reply"
  note C6 = C6_ports_from_windows [of example_features_reply example_Port_UnmarshalBinary,
      THEN conjunct2, rule_format, OF example_header]
  have len: "unat (Length ?h) = 128"
    by simp
  have "length example_features_reply = 128"
    by (simp add: example_features_reply_def)
  moreover have "\<exists>p. example_Port_UnmarshalBinary (port_window example_features_reply i) = Inr p"
    if "i < (unat (Length ?h) - 32) div 48" for i
  proof -
    from that have "i = 0 \<or> i = 1"
      unfolding len by auto
    then show ?thesis
      using example_windows by auto
  qed
  ultimately obtain v where v: "?decode = Inr v"
    using C6 [THEN conjunct2, THEN conjunct2] len by auto
  note facts = C6 [THEN conjunct2, THEN conjunct1, rule_format, OF v]
  from facts have count: "length (Ports v) = 2"
    unfolding len by simp
  from facts count have "example_Port_UnmarshalBinary (port_window example_features_reply 0)
        = Inr (Ports v ! 0)"
    and "example_Port_UnmarshalBinary (port_window example_features_reply 1)
        = Inr (Ports v ! 1)"
    by simp_all
  then have "Ports v ! 0 = 1" and "Ports v ! 1 = 2"
    using example_windows by simp_all
  with count have "Ports v = [1, 2]"
    by (auto simp: list_eq_iff_nth_eq less_Suc_eq numeral_2_eq_2)
  with v example_header show ?thesis
    by blast
qed

lemma FeaturesReply_UnmarshalBinary_no_panic:
  "FeaturesReply_UnmarshalBinary dec r data \<noteq> Inl Panic"
proof (cases "Header_UnmarshalBinary data")
  case (Inl err)
  then show ?thesis
    by (simp add: FeaturesReply_UnmarshalBinary_header_error)
next
  case (Inr h)
  show ?thesis
  proof (cases "Length h < 32 \<or> length data < unat (Length h)")
    case True
    with Inr show ?thesis
      by (simp add: FeaturesReply_UnmarshalBinary_short)
  next
    case False
    then have "32 \<le> unat (Length h)" and "unat (Length h) \<le> length data"
      by (simp_all add: word_less_nat_alt)
    from FeaturesReply_UnmarshalBinary_decode_all [OF Inr this, of r dec]
    obtain r1 where eq: "FeaturesReply_UnmarshalBinary dec r data =
        (if (unat (Length h) - 32) div 48 = 0 then Inr r1
         else case decode_all dec
                (map (port_window data) [0..<(unat (Length h) - 32) div 48]) of
              Inl err \<Rightarrow> Inl (Failed err)
            | Inr ps \<Rightarrow> Inr (r1\<lparr>Ports := ps\<rparr>))"
      by blast
    show ?thesis
      unfolding eq by (simp split: sum.split)
  qed
qed

lemma Header_UnmarshalBinary_short:
  assumes "length data < 8 \<or> length data < unat (declared_length data)"
  shows "Header_UnmarshalBinary data = Inl ErrInvalidPacketLength"
  using assms by (auto simp: Header_UnmarshalBinary_def Let_def)

text \<open>
  On a buffer shorter than 8 bytes or shorter than the length its header declares,
  ParseMessage returns the invalid-packet-length error, and so does the features-reply
  decoder on its own.  On every buffer, the features-reply decoder's reads and its port
  slicing stay within the buffer: it never panics.
\<close>

lemma short_buffer_rejected:
  "(length data < 8 \<or> length data < unat (declared_length data) \<longrightarrow>
       ParseMessage dec other data = Inl (Failed ErrInvalidPacketLength)
     \<and> FeaturesReply_UnmarshalBinary dec r data = Inl (Failed ErrInvalidPacketLength))
   \<and> FeaturesReply_UnmarshalBinary dec r data \<noteq> Inl Panic"
proof (intro conjI impI)
  assume short: "length data < 8 \<or> length data < unat (declared_length data)"
  then have hdr: "Header_UnmarshalBinary data = Inl ErrInvalidPacketLength"
    by (rule Header_UnmarshalBinary_short)
  then show "ParseMessage dec other data = Inl (Failed ErrInvalidPacketLength)"
    by (simp add: ParseMessage_def Message_UnmarshalBinary_def)
  from hdr show "FeaturesReply_UnmarshalBinary dec r data = Inl (Failed ErrInvalidPacketLength)"
    by (rule FeaturesReply_UnmarshalBinary_header_error)
next
  show "FeaturesReply_UnmarshalBinary dec r data \<noteq> Inl Panic"
    by (rule FeaturesReply_UnmarshalBinary_no_panic)
qed

lemma short_buffer_rejected_example:
  "length (take 40 example_features_reply) < unat (declared_length (take 40 example_features_reply))
   \<and> ParseMessage example_Port_UnmarshalBinary example_Other_UnmarshalBinary
        (take 40 example_features_reply) = Inl (Failed ErrInvalidPacketLength)
   \<and> ParseMessage example_Port_UnmarshalBinary example_Other_UnmarshalBinary
        [1, 17, 0, 12, 0, 0, 0, 1, 0] = Inl (Failed ErrInvalidPacketLength)"
proof -
  have 1: "length (take 40 example_features_reply) < 8
      \<or> length (take 40 example_features_reply)
          < unat (declared_length (take 40 example_features_reply))"
    by (simp add: example_features_reply_def declared_length_def big_endian_def)
  have 2: "length [1, 17, 0, 12, 0, 0, 0, 1, 0 :: byte] < 8
      \<or> length [1, 17, 0, 12, 0, 0, 0, 1, 0 :: byte]
          < unat (declared_length [1, 17, 0, 12, 0, 0, 0, 1, 0])"
    by (simp add: declared_length_def big_endian_def)
  from short_buffer_rejected [where data = "take 40 example_features_reply"
         and dec = example_Port_UnmarshalBinary and other = example_Other_UnmarshalBinary,
         THEN conjunct1, rule_format, OF 1]
       short_buffer_rejected [where data = "[1, 17, 0, 12, 0, 0, 0, 1, 0]"
         and dec = example_Port_UnmarshalBinary and other = example_Other_UnmarshalBinary,
         THEN conjunct1, rule_format, OF 2]
  show ?thesis
    by (simp add: example_features_reply_def declared_length_def big_endian_def)
qed

lemma stats_type_read:
  "10 \<le> length data \<Longrightarrow>
     Option.bind (sub_slice data 8 10) Uint16 = Some (big_endian (take 2 (drop 8 data)))"
  by (simp add: sub_slice_def Uint16_def)

text \<open>
  When the header decodes, a message type that is none of the five types of the switch,
  and a statistics reply of at least 10 bytes whose sub-type, read from bytes 8-10, is
  not the description sub-type, make ParseMessage return the unsupported-message error.
\<close>

lemma unsupported_message:
  assumes "Message_UnmarshalBinary data = Inr msg"
  shows "(Type msg \<notin> {OFPT_FEATURES_REPLY, OFPT_GET_CONFIG_REPLY, OFPT_STATS_REPLY,
                     OFPT_PORT_STATUS, OFPT_FLOW_REMOVED} \<longrightarrow>
            ParseMessage dec other data = Inl (Failed ErrUnsupportedMessage))
       \<and> (Type msg = OFPT_STATS_REPLY \<and> 10 \<le> length data
            \<and> (big_endian (take 2 (drop 8 data)) :: 16 word) \<noteq> OFPST_DESC \<longrightarrow>
            ParseMessage dec other data = Inl (Failed ErrUnsupportedMessage))"
proof (intro conjI impI)
  assume "Type msg \<notin> {OFPT_FEATURES_REPLY, OFPT_GET_CONFIG_REPLY, OFPT_STATS_REPLY,
                     OFPT_PORT_STATUS, OFPT_FLOW_REMOVED}"
  then have "select_message (Type msg) data = Inl (Failed ErrUnsupportedMessage)"
    by (simp add: select_message_def)
  with assms show "ParseMessage dec other data = Inl (Failed ErrUnsupportedMessage)"
    by (simp add: ParseMessage_def)
next
  assume stats: "Type msg = OFPT_STATS_REPLY \<and> 10 \<le> length data
            \<and> (big_endian (take 2 (drop 8 data)) :: 16 word) \<noteq> OFPST_DESC"
  have "OFPT_STATS_REPLY \<noteq> OFPT_FEATURES_REPLY" and "OFPT_STATS_REPLY \<noteq> OFPT_GET_CONFIG_REPLY"
    by (simp_all add: OFPT_STATS_REPLY_def OFPT_FEATURES_REPLY_def OFPT_GET_CONFIG_REPLY_def)
  with stats have "select_message (Type msg) data = Inl (Failed ErrUnsupportedMessage)"
    by (simp add: select_message_def stats_type_read)
  with assms show "ParseMessage dec other data = Inl (Failed ErrUnsupportedMessage)"
    by (simp add: ParseMessage_def)
qed

lemma unsupported_message_example:
  "ParseMessage example_Port_UnmarshalBinary example_Other_UnmarshalBinary
     [1, 99, 0, 8, 0, 0, 0, 1] = Inl (Failed ErrUnsupportedMessage)
   \<and> ParseMessage example_Port_UnmarshalBinary example_Other_UnmarshalBinary
     [1, 17, 0, 12, 0, 0, 0, 1, 0, 3, 0, 0] = Inl (Failed ErrUnsupportedMessage)"
proof -
  let ?odd = "[1, 99, 0, 8, 0, 0, 0, 1] :: byte list"
  let ?stats = "[1, 17, 0, 12, 0, 0, 0, 1, 0, 3, 0, 0] :: byte list"
  have odd: "Message_UnmarshalBinary ?odd = Inr \<lparr>Version = 1, Type = 99, Length = 8, XID = 1\<rparr>"
    by (simp add: Message_UnmarshalBinary_def Header_UnmarshalBinary_def declared_length_def
          big_endian_def)
  have stats: "Message_UnmarshalBinary ?stats
      = Inr \<lparr>Version = 1, Type = 17, Length = 12, XID = 1\<rparr>"
    by (simp add: Message_UnmarshalBinary_def Header_UnmarshalBinary_def declared_length_def
          big_endian_def)
  have unknown: "Type \<lparr>Version = 1, Type = 99, Length = 8, XID = 1\<rparr>
      \<notin> {OFPT_FEATURES_REPLY, OFPT_GET_CONFIG_REPLY, OFPT_STATS_REPLY,
         OFPT_PORT_STATUS, OFPT_FLOW_REMOVED}"
    by (simp add: OFPT_FEATURES_REPLY_def OFPT_GET_CONFIG_REPLY_def OFPT_STATS_REPLY_def
          OFPT_PORT_STATUS_def OFPT_FLOW_REMOVED_def)
  have subtype: "Type \<lparr>Version = 1, Type = 17, Length = 12, XID = 1\<rparr> = OFPT_STATS_REPLY
      \<and> 10 \<le> length ?stats
      \<and> (big_endian (take 2 (drop 8 ?stats)) :: 16 word) \<noteq> OFPST_DESC"
    by (simp add: OFPT_STATS_REPLY_def OFPST_DESC_def big_endian_def)
  from unsupported_message [OF odd, THEN conjunct1, rule_format, OF unknown]
       unsupported_message [OF stats, THEN conjunct2, rule_format, OF subtype]
  show ?thesis
    by blast
qed

text \<open>
  The one read of ParseMessage that can be out of range is the statistics sub-type:
  \<^verbatim>\<open>data[8:10]\<close> is taken after the header decode alone, which admits a buffer of 8 or
  9 bytes.  ParseMessage panics exactly on a statistics reply shorter than 10 bytes whose
  header decodes, such as a bare 8-byte header of type 17.
\<close>

lemma ParseMessage_Panic_iff:
  "ParseMessage dec other data = Inl Panic \<longleftrightarrow>
     (\<exists>msg. Message_UnmarshalBinary data = Inr msg \<and> Type msg = OFPT_STATS_REPLY
            \<and> length data < 10)"
proof (cases "Message_UnmarshalBinary data")
  case (Inl err)
  then show ?thesis by (simp add: ParseMessage_def)
next
  case (Inr msg)
  have distinct: "OFPT_STATS_REPLY \<noteq> OFPT_FEATURES_REPLY"
    "OFPT_STATS_REPLY \<noteq> OFPT_GET_CONFIG_REPLY"
    by (simp_all add: OFPT_STATS_REPLY_def OFPT_FEATURES_REPLY_def OFPT_GET_CONFIG_REPLY_def)
  have read: "Option.bind (sub_slice data 8 10) Uint16 = None" if "length data < 10"
    using that by (simp add: sub_slice_def)
  show ?thesis
  proof (cases "Type msg = OFPT_STATS_REPLY \<and> length data < 10")
    case True
    with Inr distinct read show ?thesis
      by (simp add: ParseMessage_def select_message_def)
  next
    case False
    then have "select_message (Type msg) data \<noteq> Inl Panic"
      by (cases "10 \<le> length data")
         (auto simp: select_message_def stats_type_read)
    with Inr False show ?thesis
      by (auto simp: ParseMessage_def FeaturesReply_UnmarshalBinary_no_panic
               split: sum.splits selected.splits)
  qed
qed

text \<open>
  C1 (the code at a failing input): a statistics reply that is its 8-byte header alone,
  declaring the length 8.  The buffer is not shorter than its declared length and the
  header decodes; the sub-type read \<^verbatim>\<open>data[8:10]\<close> is then past the end of the buffer,
  and ParseMessage panics.
\<close>

theorem C1_statistics_subtype_read_out_of_range:
  "Message_UnmarshalBinary [1, 17, 0, 8, 0, 0, 0, 1]
     = Inr \<lparr>Version = 1, Type = 17, Length = 8, XID = 1\<rparr>
   \<and> unat (declared_length [1, 17, 0, 8, 0, 0, 0, 1]) = length [1, 17, 0, 8, 0, 0, 0, 1 :: byte]
   \<and> sub_slice [1, 17, 0, 8, 0, 0, 0, 1 :: byte] 8 10 = None
   \<and> ParseMessage dec other [1, 17, 0, 8, 0, 0, 0, 1] = Inl Panic"
proof -
  have hdr: "Message_UnmarshalBinary [1, 17, 0, 8, 0, 0, 0, 1]
      = Inr \<lparr>Version = 1, Type = 17, Length = 8, XID = 1\<rparr>"
    by (simp add: Message_UnmarshalBinary_def Header_UnmarshalBinary_def declared_length_def
          big_endian_def)
  then have "ParseMessage dec other [1, 17, 0, 8, 0, 0, 0, 1] = Inl Panic"
    by (simp add: ParseMessage_Panic_iff OFPT_STATS_REPLY_def)
  moreover have "unat (declared_length [1, 17, 0, 8, 0, 0, 0, 1])
      = length [1, 17, 0, 8, 0, 0, 0, 1 :: byte]"
    by (simp add: declared_length_def big_endian_def)
  moreover have "sub_slice [1, 17, 0, 8, 0, 0, 0, 1 :: byte] 8 10 = None"
    by (simp add: sub_slice_def)
  ultimately show ?thesis
    using hdr by simp
qed

text \<open>
  C9 (the code at a failing input): a statistics reply of 9 bytes, declaring the length
  9, whose one byte after the header is 5.  The header decodes, and no sub-type that
  begins with the byte 5 is the description sub-type 0; ParseMessage does not return the
  unsupported-message error: the sub-type read \<^verbatim>\<open>data[8:10]\<close> is past the end of the
  buffer, and ParseMessage panics.
\<close>

theorem C9_short_statistics_reply_panics:
  "Message_UnmarshalBinary [1, 17, 0, 9, 0, 0, 0, 1, 5]
     = Inr \<lparr>Version = 1, Type = 17, Length = 9, XID = 1\<rparr>
   \<and> Type \<lparr>Version = 1, Type = 17, Length = 9, XID = 1\<rparr> = OFPT_STATS_REPLY
   \<and> (big_endian [5, b] :: 16 word) \<noteq> OFPST_DESC
   \<and> ParseMessage dec other [1, 17, 0, 9, 0, 0, 0, 1, 5] = Inl Panic
   \<and> ParseMessage dec other [1, 17, 0, 9, 0, 0, 0, 1, 5] \<noteq> Inl (Failed ErrUnsupportedMessage)"
proof -
  have hdr: "Message_UnmarshalBinary [1, 17, 0, 9, 0, 0, 0, 1, 5]
      = Inr \<lparr>Version = 1, Type = 17, Length = 9, XID = 1\<rparr>"
    by (simp add: Message_UnmarshalBinary_def Header_UnmarshalBinary_def declared_length_def
          big_endian_def)
  then have panic: "ParseMessage dec other [1, 17, 0, 9, 0, 0, 0, 1, 5] = Inl Panic"
    by (simp add: ParseMessage_Panic_iff OFPT_STATS_REPLY_def)
  have "bit (big_endian [5, b] :: 16 word) 8"
    by (simp add: big_endian_def bit_or_iff bit_push_bit_iff)
  then have "(big_endian [5, b] :: 16 word) \<noteq> OFPST_DESC"
    by (auto simp: OFPST_DESC_def)
  with hdr panic show ?thesis
    by (simp add: OFPT_STATS_REPLY_def)
qed

end
